theory Spec2Isabelle
  imports Main "HOL-Library.Char_ord" "HOL-Library.List_Lexorder"
begin

section \<open>libUIO: a shallow embedding of \<^verbatim>\<open>handling.c\<close>\<close>

text \<open>
  The C functions of \<^verbatim>\<open>handling.c\<close> are translated one by one. A nullable
  \<^verbatim>\<open>struct uio_info_t*\<close> is a \<open>uio_info_t option\<close>, a function that writes through
  the pointer returns the updated structure, and every call into the operating system
  or the C library is an event appended to a trace, answered by an environment that
  the theorems quantify over. Reading or writing \<^verbatim>\<open>info->maps [i]\<close> outside the
  array, or a bit outside an \<^verbatim>\<open>fd_set\<close>, is undefined behaviour in C; the model makes
  it the value \<open>Inl OutOfBounds\<close>.
\<close>

subsection \<open>Data model\<close>

text \<open>
  Pointer values are integers: \<^verbatim>\<open>NULL\<close> is 0 and \<^verbatim>\<open>MAP_FAILED\<close> is
  \<^verbatim>\<open>(void *) -1\<close>. C \<^verbatim>\<open>int\<close> values are \<open>int\<close>: the only
  arithmetic is on loop counters, which stay below \<^verbatim>\<open>maxmap\<close> and \<^verbatim>\<open>nr\<close>, and
  \<^verbatim>\<open>info->fd + 1\<close> on a file descriptor. The one conversion that can change a value,
  of the result of \<^verbatim>\<open>read\<close> to \<^verbatim>\<open>int\<close>, is written out.
\<close>

type_synonym ptr = int

definition MAP_FAILED :: ptr where
  "MAP_FAILED = - 1"

definition NULL :: ptr where
  "NULL = 0"

text \<open>
  \<^verbatim>\<open>struct uio_map_t\<close> and \<^verbatim>\<open>struct uio_info_t\<close> are declared in \<^verbatim>\<open>libUIO.h\<close>;
  the fields are the ones \<^verbatim>\<open>handling.c\<close> reads and writes. The fields \<^verbatim>\<open>size\<close> and
  \<^verbatim>\<open>map\<close> carry the suffix \<open>_m\<close>. A \<^verbatim>\<open>char*\<close> field may be \<^verbatim>\<open>NULL\<close>, which is
  \<open>None\<close>.
\<close>

record uio_map_t =
  addr :: nat
  size_m :: nat
  offset :: nat
  map_m :: ptr

record uio_info_t =
  name :: "string option"
  version :: "string option"
  devname :: string
  devid :: nat
  maxmap :: int
  maps :: "uio_map_t list"
  fd :: int

datatype fault = OutOfBounds

text \<open>\<^verbatim>\<open>info->maps [i]\<close> read as an rvalue: defined only inside the array.\<close>

definition maps_at :: "uio_info_t \<Rightarrow> int \<Rightarrow> fault + uio_map_t" where
  "maps_at info i =
     (if 0 \<le> i \<and> i < int (length (maps info)) then Inr (maps info ! nat i)
      else Inl OutOfBounds)"

text \<open>
  The external factory \<^verbatim>\<open>create_uio_info\<close> allocates \<^verbatim>\<open>maps\<close> with \<^verbatim>\<open>maxmap\<close>
  elements; a descriptor for which that holds is well formed. A descriptor that has
  not been opened has the closed file handle and every pointer unmapped.
\<close>

definition wf_info :: "uio_info_t \<Rightarrow> bool" where
  "wf_info info \<longleftrightarrow> maxmap info = int (length (maps info))"

definition unmapped :: "uio_info_t \<Rightarrow> bool" where
  "unmapped info \<longleftrightarrow> list_all (\<lambda>m. map_m m = MAP_FAILED) (maps info)"

definition unopened :: "uio_info_t \<Rightarrow> bool" where
  "unopened info \<longleftrightarrow> fd info = - 1 \<and> unmapped info"

subsection \<open>Accessors\<close>

definition uio_get_mem_size :: "uio_info_t option \<Rightarrow> int \<Rightarrow> fault + nat" where
  "uio_get_mem_size info mp =
     (case info of
        None \<Rightarrow> Inr 0
      | Some i \<Rightarrow>
          if mp \<ge> maxmap i then Inr 0
          else (case maps_at i mp of Inl f \<Rightarrow> Inl f | Inr m \<Rightarrow> Inr (size_m m)))"

definition uio_get_offset :: "uio_info_t option \<Rightarrow> int \<Rightarrow> fault + nat" where
  "uio_get_offset info mp =
     (case info of
        None \<Rightarrow> Inr 0
      | Some i \<Rightarrow>
          if mp \<ge> maxmap i then Inr 0
          else (case maps_at i mp of Inl f \<Rightarrow> Inl f | Inr m \<Rightarrow> Inr (offset m)))"

definition uio_get_mem_addr :: "uio_info_t option \<Rightarrow> int \<Rightarrow> fault + nat" where
  "uio_get_mem_addr info mp =
     (case info of
        None \<Rightarrow> Inr 0
      | Some i \<Rightarrow>
          if mp \<ge> maxmap i then Inr 0
          else (case maps_at i mp of Inl f \<Rightarrow> Inl f | Inr m \<Rightarrow> Inr (addr m)))"

definition uio_get_mem_map :: "uio_info_t option \<Rightarrow> int \<Rightarrow> fault + ptr" where
  "uio_get_mem_map info mp =
     (case info of
        None \<Rightarrow> Inr NULL
      | Some i \<Rightarrow>
          if mp \<ge> maxmap i then Inr NULL
          else (case maps_at i mp of
                  Inl f \<Rightarrow> Inl f
                | Inr m \<Rightarrow> if map_m m = MAP_FAILED then Inr NULL else Inr (map_m m)))"

definition uio_get_name :: "uio_info_t option \<Rightarrow> string option" where
  "uio_get_name info = (case info of None \<Rightarrow> None | Some i \<Rightarrow> name i)"

definition uio_get_devname :: "uio_info_t option \<Rightarrow> string option" where
  "uio_get_devname info = (case info of None \<Rightarrow> None | Some i \<Rightarrow> Some (devname i))"

definition uio_get_version :: "uio_info_t option \<Rightarrow> string option" where
  "uio_get_version info = (case info of None \<Rightarrow> None | Some i \<Rightarrow> version i)"

text \<open>
  \<^verbatim>\<open>major\<close> and \<^verbatim>\<open>minor\<close> are macros of the system headers; they are parameters
  \<open>mj\<close> and \<open>mn\<close> of the two accessors that use them.
\<close>

definition uio_get_major :: "(nat \<Rightarrow> int) \<Rightarrow> uio_info_t option \<Rightarrow> int" where
  "uio_get_major mj info = (case info of None \<Rightarrow> 0 | Some i \<Rightarrow> mj (devid i))"

definition uio_get_minor :: "(nat \<Rightarrow> int) \<Rightarrow> uio_info_t option \<Rightarrow> int" where
  "uio_get_minor mn info = (case info of None \<Rightarrow> 0 | Some i \<Rightarrow> mn (devid i))"

definition uio_get_devid :: "uio_info_t option \<Rightarrow> nat" where
  "uio_get_devid info = (case info of None \<Rightarrow> 0 | Some i \<Rightarrow> devid i)"

definition uio_get_maxmap :: "uio_info_t option \<Rightarrow> int" where
  "uio_get_maxmap info = (case info of None \<Rightarrow> 0 | Some i \<Rightarrow> maxmap i)"

subsection \<open>The operating system and the C library\<close>

text \<open>
  Every external call is recorded as an event. \<^verbatim>\<open>Open p\<close> is \<^verbatim>\<open>open (p, O_RDWR)\<close>;
  \<^verbatim>\<open>Mmap n f k\<close> is \<^verbatim>\<open>mmap (NULL, n, PROT_READ | PROT_WRITE, MAP_SHARED, f, k)\<close>;
  \<^verbatim>\<open>Write f bs\<close> is a \<^verbatim>\<open>write\<close> to \<open>f\<close> of the bytes \<open>bs\<close>, in the order they lie
  in memory; \<^verbatim>\<open>Read f n\<close> is \<^verbatim>\<open>read (f, &dummy, n)\<close>;
  \<^verbatim>\<open>Select n rs tv\<close> is \<^verbatim>\<open>select (n, &rfds, NULL, NULL, &tv)\<close> with \<open>rs\<close> the
  descriptors put in \<^verbatim>\<open>rfds\<close>; \<^verbatim>\<open>Calloc n\<close> is
  \<^verbatim>\<open>calloc (n, sizeof (struct uio_info_t *))\<close>; \<^verbatim>\<open>Create_uio_info d n\<close> is a call
  of the external factory. \<^verbatim>\<open>free\<close> is not recorded.
\<close>

type_synonym timeval = "int \<times> int"

datatype call =
    Open string
  | Mmap nat int int
  | Munmap ptr nat
  | Close int
  | Write int "nat list"
  | Read int nat
  | Select int "int list" timeval
  | Scandir string
  | Calloc int
  | Create_uio_info string string

datatype errno_t = EINVAL | ENOMEM | ETIMEDOUT | OSError nat

text \<open>
  The state outside the descriptor: the calls issued so far, \<^verbatim>\<open>errno\<close>, and what
  \<^verbatim>\<open>perror\<close> has printed (its argument and the \<^verbatim>\<open>errno\<close> it reported).
\<close>

record sys =
  calls :: "call list"
  errno :: errno_t
  diag :: "(string \<times> errno_t) list"

text \<open>
  The environment is the platform the library runs on. It answers a call from the calls
  that came before it: \<open>ret\<close> gives the integer (or pointer) a call returns and the
  \<^verbatim>\<open>errno\<close> it sets, if it sets one; \<open>dirents\<close> gives the entries of a directory in
  the order the file system lists them, or the error of a failed listing; \<open>factory\<close>
  is what \<^verbatim>\<open>create_uio_info\<close> returns; \<open>perror_errno\<close> is the \<^verbatim>\<open>errno\<close> that
  \<^verbatim>\<open>perror\<close> leaves when its own output changes it. It also fixes what the C
  implementation leaves open: the byte order and the size of \<^verbatim>\<open>unsigned long\<close>, and
  the collation of the current locale, given as \<^verbatim>\<open>strxfrm\<close> (two names compare
  under \<^verbatim>\<open>strcoll\<close> as their transformed strings compare byte by byte; in the "C"
  locale the transformation is the identity).
\<close>

record env =
  ret :: "call list \<Rightarrow> call \<Rightarrow> int \<times> errno_t option"
  dirents :: "call list \<Rightarrow> string \<Rightarrow> errno_t + string list"
  factory :: "call list \<Rightarrow> string \<Rightarrow> string \<Rightarrow> uio_info_t option"
  perror_errno :: "sys \<Rightarrow> string \<Rightarrow> errno_t option"
  big_endian :: bool
  sizeof_long :: nat
  strxfrm :: "string \<Rightarrow> string"

definition syscall :: "env \<Rightarrow> call \<Rightarrow> sys \<Rightarrow> int \<times> sys" where
  "syscall E c s =
     (fst (ret E (calls s) c),
      s\<lparr>calls := calls s @ [c],
        errno := (case snd (ret E (calls s) c) of None \<Rightarrow> errno s | Some e \<Rightarrow> e)\<rparr>)"

text \<open>
  \<^verbatim>\<open>perror (str)\<close> prints \<open>str\<close> and the message of the current \<^verbatim>\<open>errno\<close>; writing
  to \<^verbatim>\<open>stderr\<close> may itself fail and overwrite \<^verbatim>\<open>errno\<close>.
\<close>

definition perror :: "env \<Rightarrow> string \<Rightarrow> sys \<Rightarrow> sys" where
  "perror E str s =
     s\<lparr>diag := diag s @ [(str, errno s)],
       errno := (case perror_errno E s str of None \<Rightarrow> errno s | Some e \<Rightarrow> e)\<rparr>"

text \<open>
  The object representation of an \<^verbatim>\<open>unsigned long\<close> and of a 4-byte unsigned
  integer, as lists of bytes in memory order.
\<close>

fun le_bytes :: "nat \<Rightarrow> nat \<Rightarrow> nat list" where
  "le_bytes 0 v = []"
| "le_bytes (Suc n) v = v mod 256 # le_bytes n (v div 256)"

definition ulong_bytes :: "env \<Rightarrow> nat \<Rightarrow> nat list" where
  "ulong_bytes E v =
     (if big_endian E then rev (le_bytes (sizeof_long E) v) else le_bytes (sizeof_long E) v)"

definition uint32_bytes :: "env \<Rightarrow> nat \<Rightarrow> nat list" where
  "uint32_bytes E v = (if big_endian E then rev (le_bytes 4 v) else le_bytes 4 v)"

text \<open>
  The conversion of an \<^verbatim>\<open>ssize_t\<close> to \<^verbatim>\<open>int\<close> in \<^verbatim>\<open>ret = read (...)\<close>: the
  value modulo \<open>2\<^sup>3\<^sup>2\<close> in the range of a 32-bit \<^verbatim>\<open>int\<close>.
\<close>

definition int_of_ssize :: "int \<Rightarrow> int" where
  "int_of_ssize n = (n + 2147483648) mod 4294967296 - 2147483648"

text \<open>
  \<^verbatim>\<open>scandir (dir, &namelist, 0, alphasort)\<close>: no filter, the entries sorted by
  \<^verbatim>\<open>alphasort\<close>, which compares names with \<^verbatim>\<open>strcoll\<close>, that is, by their
  \<^verbatim>\<open>strxfrm\<close> keys in the lexicographic order of \<open>string\<close>. It returns the number of
  entries, or -1 with \<^verbatim>\<open>errno\<close> set.
\<close>

definition scandir :: "env \<Rightarrow> string \<Rightarrow> sys \<Rightarrow> (int \<times> string list) \<times> sys" where
  "scandir E dir s =
     (case dirents E (calls s) dir of
        Inl e \<Rightarrow> ((- 1, []), s\<lparr>calls := calls s @ [Scandir dir], errno := e\<rparr>)
      | Inr names \<Rightarrow>
          ((int (length names), sort_key (strxfrm E) names), s\<lparr>calls := calls s @ [Scandir dir]\<rparr>))"

definition create_uio_info :: "env \<Rightarrow> string \<Rightarrow> string \<Rightarrow> sys \<Rightarrow> uio_info_t option \<times> sys" where
  "create_uio_info E dir nm s =
     (factory E (calls s) dir nm, s\<lparr>calls := calls s @ [Create_uio_info dir nm]\<rparr>)"

subsection \<open>Opening and closing a device\<close>

text \<open>The \<^verbatim>\<open>for\<close> loop of \<^verbatim>\<open>uio_open\<close>, from counter \<open>i\<close> on.\<close>

function mmap_loop :: "env \<Rightarrow> int \<Rightarrow> int \<Rightarrow> uio_info_t \<Rightarrow> sys \<Rightarrow> fault + (uio_info_t \<times> sys)" where
  "mmap_loop E fd' i info s =
     (if i < maxmap info then
        (case maps_at info i of
           Inl f \<Rightarrow> Inl f
         | Inr m \<Rightarrow>
             mmap_loop E fd' (i + 1)
               (info\<lparr>maps := (maps info)[nat i := m\<lparr>map_m := fst (syscall E (Mmap (size_m m) fd' i) s)\<rparr>]\<rparr>)
               (snd (syscall E (Mmap (size_m m) fd' i) s)))
      else Inr (info, s))"
  by pat_completeness auto
termination
  by (relation "measure (\<lambda>(E, fd', i, info, s). nat (maxmap info - i))") auto

declare mmap_loop.simps [simp del]

definition uio_open :: "env \<Rightarrow> uio_info_t option \<Rightarrow> sys \<Rightarrow> fault + (int \<times> uio_info_t option \<times> sys)" where
  "uio_open E info s =
     (case info of
        None \<Rightarrow> Inr (- 1, None, perror E ''uio_open'' (s\<lparr>errno := EINVAL\<rparr>))
      | Some i \<Rightarrow>
          (case syscall E (Open (devname i)) s of
             (fd', s1) \<Rightarrow>
               if fd' < 0 then Inr (- 1, Some i, perror E ''open'' s1)
               else (case mmap_loop E fd' 0 i s1 of
                       Inl f \<Rightarrow> Inl f
                     | Inr (i', s2) \<Rightarrow> Inr (0, Some (i'\<lparr>fd := fd'\<rparr>), s2))))"

text \<open>The \<^verbatim>\<open>for\<close> loop of \<^verbatim>\<open>uio_close\<close>, from counter \<open>i\<close> on.\<close>

function munmap_loop :: "env \<Rightarrow> int \<Rightarrow> uio_info_t \<Rightarrow> sys \<Rightarrow> fault + (uio_info_t \<times> sys)" where
  "munmap_loop E i info s =
     (if i < maxmap info then
        (case maps_at info i of
           Inl f \<Rightarrow> Inl f
         | Inr m \<Rightarrow>
             munmap_loop E (i + 1)
               (info\<lparr>maps := (maps info)[nat i := m\<lparr>map_m := MAP_FAILED\<rparr>]\<rparr>)
               (if map_m m \<noteq> MAP_FAILED then snd (syscall E (Munmap (map_m m) (size_m m)) s)
                else s))
      else Inr (info, s))"
  by pat_completeness auto
termination
  by (relation "measure (\<lambda>(E, i, info, s). nat (maxmap info - i))") auto

declare munmap_loop.simps [simp del]

definition uio_close :: "env \<Rightarrow> uio_info_t option \<Rightarrow> sys \<Rightarrow> fault + (int \<times> uio_info_t option \<times> sys)" where
  "uio_close E info s =
     (case info of
        None \<Rightarrow> Inr (- 1, None, perror E ''uio_close'' (s\<lparr>errno := EINVAL\<rparr>))
      | Some i \<Rightarrow>
          (case munmap_loop E 0 i s of
             Inl f \<Rightarrow> Inl f
           | Inr (i', s1) \<Rightarrow> Inr (0, Some i', snd (syscall E (Close (fd i')) s1))))"

subsection \<open>Interrupts\<close>

text \<open>
  \<^verbatim>\<open>write (info->fd, &tmp, 4)\<close> sends the first four bytes of the
  \<^verbatim>\<open>unsigned long tmp\<close>.
\<close>

definition uio_enable_irq :: "env \<Rightarrow> uio_info_t option \<Rightarrow> sys \<Rightarrow> int \<times> sys" where
  "uio_enable_irq E info s =
     (case info of
        None \<Rightarrow> (- 1, perror E ''uio_enable_irq'' (s\<lparr>errno := EINVAL\<rparr>))
      | Some i \<Rightarrow>
          if fd i = - 1 then (- 1, perror E ''uio_enable_irq'' (s\<lparr>errno := EINVAL\<rparr>))
          else (case syscall E (Write (fd i) (take 4 (ulong_bytes E 1))) s of
                  (n, s1) \<Rightarrow> (if n = 4 then 0 else - 1, s1)))"

definition uio_disable_irq :: "env \<Rightarrow> uio_info_t option \<Rightarrow> sys \<Rightarrow> int \<times> sys" where
  "uio_disable_irq E info s =
     (case info of
        None \<Rightarrow> (- 1, perror E ''uio_disable_irq'' (s\<lparr>errno := EINVAL\<rparr>))
      | Some i \<Rightarrow>
          if fd i = - 1 then (- 1, perror E ''uio_disable_irq'' (s\<lparr>errno := EINVAL\<rparr>))
          else (case syscall E (Write (fd i) (take 4 (ulong_bytes E 0))) s of
                  (n, s1) \<Rightarrow> (if n = 4 then 0 else - 1, s1)))"

text \<open>
  The last two statements of \<^verbatim>\<open>uio_irqwait_timeout\<close>: the read, whose result is
  stored in the \<^verbatim>\<open>int ret\<close>, and the value returned.
\<close>

definition irq_read :: "env \<Rightarrow> uio_info_t \<Rightarrow> sys \<Rightarrow> int \<times> sys" where
  "irq_read E i s =
     (case syscall E (Read (fd i) 4) s of
        (n, s1) \<Rightarrow> (if int_of_ssize n < 0 then int_of_ssize n else 0, s1))"

definition FD_SETSIZE :: int where
  "FD_SETSIZE = 1024"

text \<open>
  \<^verbatim>\<open>FD_SET (info->fd, &rfds)\<close> sets a bit of the \<^verbatim>\<open>FD_SETSIZE\<close> bits of \<^verbatim>\<open>rfds\<close>:
  for a descriptor outside \<open>0..FD_SETSIZE - 1\<close> it writes outside the object. Inside,
  \<^verbatim>\<open>rfds\<close> holds the one descriptor \<^verbatim>\<open>info->fd\<close>. In the \<^verbatim>\<open>switch\<close>, case 0 sets
  \<^verbatim>\<open>errno\<close> and falls through to the \<^verbatim>\<open>return -1\<close> of case -1; every other value
  leaves the \<^verbatim>\<open>switch\<close>.
\<close>

definition uio_irqwait_timeout :: "env \<Rightarrow> uio_info_t option \<Rightarrow> timeval option \<Rightarrow> sys \<Rightarrow>
    fault + (int \<times> sys)" where
  "uio_irqwait_timeout E info timeout s =
     (case info of
        None \<Rightarrow> Inr (- 1, perror E ''uio_irqwait_timeout'' (s\<lparr>errno := EINVAL\<rparr>))
      | Some i \<Rightarrow>
          if fd i = - 1 then Inr (- 1, perror E ''uio_irqwait_timeout'' (s\<lparr>errno := EINVAL\<rparr>))
          else (case timeout of
                  None \<Rightarrow> Inr (irq_read E i s)
                | Some tv \<Rightarrow>
                    if 0 \<le> fd i \<and> fd i < FD_SETSIZE then
                      (case syscall E (Select (fd i + 1) [fd i] tv) s of
                         (r, s1) \<Rightarrow>
                           if r = 0 then Inr (- 1, s1\<lparr>errno := ETIMEDOUT\<rparr>)
                           else if r = - 1 then Inr (- 1, s1)
                           else Inr (irq_read E i s1))
                    else Inl OutOfBounds))"

subsection \<open>Discovery\<close>

definition PATH_MAX :: nat where
  "PATH_MAX = 4096"

definition sysfs_default :: string where
  "sysfs_default = ''/sys''"

text \<open>
  \<^verbatim>\<open>snprintf (sysfsname, sizeof (sysfsname), "%s/class/uio", sysfs)\<close> keeps at most
  \<^verbatim>\<open>PATH_MAX - 1\<close> characters. The static variable \<^verbatim>\<open>sysfs\<close> is the argument
  \<open>sysfs\<close> of \<open>uio_find_devices\<close>.
\<close>

definition sysfsname :: "string \<Rightarrow> string" where
  "sysfsname sysfs = take (PATH_MAX - 1) (sysfs @ ''/class/uio'')"

text \<open>
  The loop over \<^verbatim>\<open>namelist\<close>, with \<open>t\<close> the next free slot of \<^verbatim>\<open>info\<close>. The slot
  lies inside the array (\<open>t\<close> counts entries already seen); outside it the write
  would be a fault.
\<close>

fun fill_loop :: "env \<Rightarrow> string \<Rightarrow> string list \<Rightarrow> nat \<Rightarrow> uio_info_t option list \<Rightarrow> sys \<Rightarrow>
    fault + (uio_info_t option list \<times> sys)" where
  "fill_loop E dir [] t info s = Inr (info, s)"
| "fill_loop E dir (n # ns) t info s =
     (if n = ''.'' \<or> n = ''..'' then fill_loop E dir ns t info s
      else if t < length info then
        fill_loop E dir ns (t + 1) (info[t := fst (create_uio_info E dir n s)])
          (snd (create_uio_info E dir n s))
      else Inl OutOfBounds)"

text \<open>
  The result is \<open>None\<close> for a \<^verbatim>\<open>NULL\<close> return, and otherwise the \<^verbatim>\<open>calloc\<close>ed array
  of \<^verbatim>\<open>nr\<close> pointers, a \<^verbatim>\<open>NULL\<close> pointer being \<open>None\<close>.
\<close>

definition uio_find_devices :: "env \<Rightarrow> string \<Rightarrow> sys \<Rightarrow> fault + (uio_info_t option list option \<times> sys)" where
  "uio_find_devices E sysfs s =
     (case scandir E (sysfsname sysfs) s of
        ((nr, namelist), s1) \<Rightarrow>
          if nr < 0 then Inr (None, perror E ''scandir'' s1)
          else (case syscall E (Calloc nr) s1 of
                  (p, s2) \<Rightarrow>
                    if p = NULL then Inr (None, perror E ''calloc'' (s2\<lparr>errno := ENOMEM\<rparr>))
                    else (case fill_loop E (sysfsname sysfs) namelist 0 (replicate (nat nr) None) s2 of
                            Inl f \<Rightarrow> Inl f
                          | Inr (info, s3) \<Rightarrow> Inr (Some info, s3))))"

subsection \<open>Notions used in the statements\<close>

text \<open>The \<^verbatim>\<open>mmap\<close> call that \<^verbatim>\<open>uio_open\<close> issues for map index \<open>k\<close>.\<close>

definition mmap_call :: "uio_info_t \<Rightarrow> int \<Rightarrow> nat \<Rightarrow> call" where
  "mmap_call info fd' k = Mmap (size_m (maps info ! k)) fd' (int k)"

text \<open>The entries of a listing that are not the two pseudo-entries.\<close>

definition valid_names :: "string list \<Rightarrow> string list" where
  "valid_names ns = filter (\<lambda>n. n \<noteq> ''.'' \<and> n \<noteq> ''..'') ns"

text \<open>An environment that answers one particular call differently.\<close>

definition answering :: "call \<Rightarrow> int \<times> errno_t option \<Rightarrow> env \<Rightarrow> env" where
  "answering c r E = E\<lparr>ret := (\<lambda>h c'. if c' = c then r else ret E h c')\<rparr>"

subsection \<open>A concrete device and a concrete kernel\<close>

text \<open>
  A device with two maps of sizes 4096 and 0, as the factory leaves it, and a
  little-endian platform with an 8-byte \<^verbatim>\<open>unsigned long\<close> and the "C" locale, where
  every call succeeds, except that \<^verbatim>\<open>mmap\<close> rejects a length of 0 with \<^verbatim>\<open>EINVAL\<close>,
  as Linux does, and where \<^verbatim>\<open>perror\<close> leaves \<^verbatim>\<open>errno\<close> alone. The directory holds
  three devices, listed in creation order.
\<close>

definition map0 :: uio_map_t where
  "map0 = \<lparr>addr = 1073741824, size_m = 4096, offset = 0, map_m = MAP_FAILED\<rparr>"

definition map1 :: uio_map_t where
  "map1 = \<lparr>addr = 0, size_m = 0, offset = 0, map_m = MAP_FAILED\<rparr>"

definition dev0 :: uio_info_t where
  "dev0 = \<lparr>name = Some ''uio_pdrv_genirq'', version = Some ''0.1'', devname = ''/dev/uio0'',
            devid = 61440, maxmap = 2, maps = [map0, map1], fd = - 1\<rparr>"

text \<open>The same device after a successful \<^verbatim>\<open>uio_open\<close> under that kernel.\<close>

definition dev0_open :: uio_info_t where
  "dev0_open = dev0\<lparr>maps := [map0\<lparr>map_m := 65536\<rparr>, map1], fd := 3\<rparr>"

definition sys0 :: sys where
  "sys0 = \<lparr>calls = [], errno = OSError 0, diag = []\<rparr>"

definition linux_ret :: "call list \<Rightarrow> call \<Rightarrow> int \<times> errno_t option" where
  "linux_ret h c =
     (case c of
        Open p \<Rightarrow> (3, None)
      | Mmap n f k \<Rightarrow> if n = 0 then (- 1, Some EINVAL) else (65536 + 4096 * k, None)
      | Munmap p n \<Rightarrow> (0, None)
      | Close f \<Rightarrow> (0, None)
      | Write f bs \<Rightarrow> (int (length bs), None)
      | Read f n \<Rightarrow> (int n, None)
      | Select n rs tv \<Rightarrow> (1, None)
      | Scandir d \<Rightarrow> (0, None)
      | Calloc n \<Rightarrow> (1, None)
      | Create_uio_info d n \<Rightarrow> (0, None))"

definition linux :: env where
  "linux = \<lparr>ret = linux_ret,
              dirents = (\<lambda>h d. Inr [''uio0'', ''..'', ''uio2'', ''.'', ''uio1'']),
              factory = (\<lambda>h d n. Some (dev0\<lparr>devname := ''/dev/'' @ n\<rparr>)),
              perror_errno = (\<lambda>s str. None),
              big_endian = False,
              sizeof_long = 8,
              strxfrm = (\<lambda>n. n)\<rparr>"

text \<open>
  The same platform with \<^verbatim>\<open>stderr\<close> closed: \<^verbatim>\<open>perror\<close> fails and leaves
  \<^verbatim>\<open>EBADF\<close> (9) in \<^verbatim>\<open>errno\<close>.
\<close>

definition linux_stderr_closed :: env where
  "linux_stderr_closed = linux\<lparr>perror_errno := (\<lambda>s str. Some (OSError 9))\<rparr>"

section \<open>Properties\<close>

subsection \<open>System calls\<close>

lemma syscall_calls [simp]: "calls (snd (syscall E c s)) = calls s @ [c]"
  by (simp add: syscall_def)

lemma syscall_diag [simp]: "diag (snd (syscall E c s)) = diag s"
  by (simp add: syscall_def)

lemma syscall_fst [simp]: "fst (syscall E c s) = fst (ret E (calls s) c)"
  by (simp add: syscall_def)

lemma syscall_errno:
  "errno (snd (syscall E c s)) = (case snd (ret E (calls s) c) of None \<Rightarrow> errno s | Some e \<Rightarrow> e)"
  by (simp add: syscall_def)

subsection \<open>The loops of open and close\<close>

lemma mmap_call_update:
  "k \<noteq> j \<Longrightarrow> mmap_call (info\<lparr>maps := (maps info)[j := x]\<rparr>) fd' k = mmap_call info fd' k"
  by (simp add: mmap_call_def)

lemma mmap_calls_update:
  "j < a \<Longrightarrow> map (mmap_call (info\<lparr>maps := (maps info)[j := x]\<rparr>) fd') [a..<b] =
     map (mmap_call info fd') [a..<b]"
  by (rule map_cong) (simp_all add: mmap_call_update)

lemma mmap_loop_run:
  "maxmap info = int (length (maps info)) \<Longrightarrow> 0 \<le> i \<Longrightarrow> i \<le> maxmap info \<Longrightarrow>
   \<exists>ms s'. mmap_loop E fd' i info s = Inr (info\<lparr>maps := take (nat i) (maps info) @ ms\<rparr>, s') \<and>
        length ms = length (maps info) - nat i \<and>
        calls s' = calls s @ map (mmap_call info fd') [nat i..<length (maps info)] \<and>
        diag s' = diag s \<and>
        (\<forall>k<length ms. ms ! k = (maps info ! (nat i + k))
           \<lparr>map_m := fst (ret E (calls s @ map (mmap_call info fd') [nat i..<nat i + k])
                             (mmap_call info fd' (nat i + k)))\<rparr>)"
proof (induction E fd' i info s rule: mmap_loop.induct)
  case (1 E fd' i info s)
  show ?case
  proof (cases "i < maxmap info")
    case False
    with "1.prems" have "nat i = length (maps info)" by simp
    with False show ?thesis by (simp add: mmap_loop.simps)
  next
    case True
    let ?n = "length (maps info)"
    let ?m = "maps info ! nat i"
    let ?c = "Mmap (size_m ?m) fd' i"
    let ?m' = "?m\<lparr>map_m := fst (syscall E ?c s)\<rparr>"
    let ?info2 = "info\<lparr>maps := (maps info)[nat i := ?m']\<rparr>"
    let ?s2 = "snd (syscall E ?c s)"
    from True "1.prems" have lt: "nat i < ?n" by simp
    from True "1.prems" have at: "maps_at info i = Inr ?m" by (simp add: maps_at_def)
    have nat_suc: "nat (i + 1) = Suc (nat i)" using "1.prems" by simp
    have c_eq: "?c = mmap_call info fd' (nat i)" using "1.prems" by (simp add: mmap_call_def)
    have "\<exists>ms s'. mmap_loop E fd' (i + 1) ?info2 ?s2 =
            Inr (?info2\<lparr>maps := take (nat (i + 1)) (maps ?info2) @ ms\<rparr>, s') \<and>
        length ms = length (maps ?info2) - nat (i + 1) \<and>
        calls s' = calls ?s2 @ map (mmap_call ?info2 fd') [nat (i + 1)..<length (maps ?info2)] \<and>
        diag s' = diag ?s2 \<and>
        (\<forall>k<length ms. ms ! k = (maps ?info2 ! (nat (i + 1) + k))
           \<lparr>map_m := fst (ret E (calls ?s2 @ map (mmap_call ?info2 fd') [nat (i + 1)..<nat (i + 1) + k])
                             (mmap_call ?info2 fd' (nat (i + 1) + k)))\<rparr>)"
      using True "1.prems" at by (intro "1.IH"[OF True at]) auto
    then obtain ms s' where run: "mmap_loop E fd' (i + 1) ?info2 ?s2 =
            Inr (?info2\<lparr>maps := take (nat (i + 1)) (maps ?info2) @ ms\<rparr>, s')"
      and len: "length ms = ?n - Suc (nat i)"
      and c: "calls s' = calls ?s2 @ map (mmap_call ?info2 fd') [Suc (nat i)..<?n]"
      and d: "diag s' = diag ?s2"
      and nth: "\<And>k. k < length ms \<Longrightarrow> ms ! k = (maps ?info2 ! (Suc (nat i) + k))
           \<lparr>map_m := fst (ret E (calls ?s2 @ map (mmap_call ?info2 fd') [Suc (nat i)..<Suc (nat i) + k])
                             (mmap_call ?info2 fd' (Suc (nat i) + k)))\<rparr>"
      unfolding nat_suc by auto
    have unfold: "mmap_loop E fd' i info s = mmap_loop E fd' (i + 1) ?info2 ?s2"
      using True at by (subst mmap_loop.simps) simp
    have tk: "take (Suc (nat i)) ((maps info)[nat i := x]) = take (nat i) (maps info) @ [x]" for x
      using lt by (simp add: take_Suc_conv_app_nth)
    have calls2: "calls ?s2 = calls s @ [mmap_call info fd' (nat i)]"
      by (simp add: c_eq)
    have upt: "[nat i..<?n] = nat i # [Suc (nat i)..<?n]"
      using lt by (simp add: upt_conv_Cons)
    have A: "mmap_loop E fd' i info s = Inr (info\<lparr>maps := take (nat i) (maps info) @ (?m' # ms)\<rparr>, s')"
      unfolding unfold using run by (simp add: nat_suc tk)
    have B: "length (?m' # ms) = ?n - nat i" using len lt by simp
    have C: "calls s' = calls s @ map (mmap_call info fd') [nat i..<?n]"
      using c c_eq by (simp add: mmap_calls_update upt)
    have D: "diag s' = diag s" using d by simp
    have E: "(?m' # ms) ! k = (maps info ! (nat i + k))
           \<lparr>map_m := fst (ret E (calls s @ map (mmap_call info fd') [nat i..<nat i + k])
                             (mmap_call info fd' (nat i + k)))\<rparr>" if k: "k < length (?m' # ms)" for k
    proof (cases k)
      case 0
      then show ?thesis by (simp add: c_eq)
    next
      case (Suc j)
      with k have j: "j < length ms" by simp
      have upt2: "[nat i..<Suc (nat i + j)] = nat i # [Suc (nat i)..<Suc (nat i + j)]"
        by (simp add: upt_conv_Cons)
      show ?thesis
        using nth [OF j] Suc c_eq
        by (simp add: mmap_calls_update mmap_call_update upt2 del: upt_Suc)
    qed
    show ?thesis
      using A B C D E by blast
  qed
qed

lemma munmap_loop_run:
  "maxmap info = int (length (maps info)) \<Longrightarrow> 0 \<le> i \<Longrightarrow> i \<le> maxmap info \<Longrightarrow>
   \<exists>s'. munmap_loop E i info s =
          Inr (info\<lparr>maps := take (nat i) (maps info) @
                 map (\<lambda>m. m\<lparr>map_m := MAP_FAILED\<rparr>) (drop (nat i) (maps info))\<rparr>, s') \<and>
        calls s' = calls s @ map (\<lambda>m. Munmap (map_m m) (size_m m))
                     (filter (\<lambda>m. map_m m \<noteq> MAP_FAILED) (drop (nat i) (maps info))) \<and>
        diag s' = diag s"
proof (induction E i info s rule: munmap_loop.induct)
  case (1 E i info s)
  show ?case
  proof (cases "i < maxmap info")
    case False
    with "1.prems" have "nat i = length (maps info)" by simp
    with False show ?thesis by (simp add: munmap_loop.simps)
  next
    case True
    let ?m = "maps info ! nat i"
    let ?info2 = "info\<lparr>maps := (maps info)[nat i := ?m\<lparr>map_m := MAP_FAILED\<rparr>]\<rparr>"
    let ?s2 = "if map_m ?m \<noteq> MAP_FAILED then snd (syscall E (Munmap (map_m ?m) (size_m ?m)) s) else s"
    from True "1.prems" have lt: "nat i < length (maps info)" by simp
    from True "1.prems" have at: "maps_at info i = Inr ?m" by (simp add: maps_at_def)
    have nat_suc: "nat (i + 1) = Suc (nat i)" using "1.prems" by simp
    have "\<exists>s'. munmap_loop E (i + 1) ?info2 ?s2 =
          Inr (?info2\<lparr>maps := take (nat (i + 1)) (maps ?info2) @
                 map (\<lambda>m. m\<lparr>map_m := MAP_FAILED\<rparr>) (drop (nat (i + 1)) (maps ?info2))\<rparr>, s') \<and>
        calls s' = calls ?s2 @ map (\<lambda>m. Munmap (map_m m) (size_m m))
                     (filter (\<lambda>m. map_m m \<noteq> MAP_FAILED) (drop (nat (i + 1)) (maps ?info2))) \<and>
        diag s' = diag ?s2"
      using True "1.prems" at by (intro "1.IH"[OF True at]) auto
    then obtain s' where run: "munmap_loop E (i + 1) ?info2 ?s2 =
          Inr (?info2\<lparr>maps := take (nat (i + 1)) (maps ?info2) @
                 map (\<lambda>m. m\<lparr>map_m := MAP_FAILED\<rparr>) (drop (nat (i + 1)) (maps ?info2))\<rparr>, s')"
      and c: "calls s' = calls ?s2 @ map (\<lambda>m. Munmap (map_m m) (size_m m))
                     (filter (\<lambda>m. map_m m \<noteq> MAP_FAILED) (drop (nat (i + 1)) (maps ?info2)))"
      and d: "diag s' = diag ?s2" by blast
    have unfold: "munmap_loop E i info s = munmap_loop E (i + 1) ?info2 ?s2"
      using True at by (subst munmap_loop.simps) simp
    have dr: "drop (nat i) (maps info) = ?m # drop (Suc (nat i)) (maps info)"
      using lt by (simp add: Cons_nth_drop_Suc)
    have tk: "take (Suc (nat i)) ((maps info)[nat i := ?m\<lparr>map_m := MAP_FAILED\<rparr>]) =
              take (nat i) (maps info) @ [?m\<lparr>map_m := MAP_FAILED\<rparr>]"
      using lt by (simp add: take_Suc_conv_app_nth)
    show ?thesis
      unfolding unfold
      apply (rule exI [of _ s'])
      using run c d by (simp add: nat_suc dr tk)
  qed
qed

subsection \<open>Open and close in closed form\<close>

lemma perror_calls [simp]: "calls (perror E str s) = calls s"
  by (simp add: perror_def)

lemma perror_diag [simp]: "diag (perror E str s) = diag s @ [(str, errno s)]"
  by (simp add: perror_def)

lemma uio_open_null:
  "uio_open E None s = Inr (- 1, None, perror E ''uio_open'' (s\<lparr>errno := EINVAL\<rparr>))"
  by (simp add: uio_open_def)

lemma uio_open_fail:
  "fst (ret E (calls s) (Open (devname i))) < 0 \<Longrightarrow>
   uio_open E (Some i) s = Inr (- 1, Some i, perror E ''open'' (snd (syscall E (Open (devname i)) s)))"
  by (simp add: uio_open_def case_prod_beta)

lemma uio_open_ok:
  assumes wf: "wf_info i"
    and fd': "fd' = fst (ret E (calls s) (Open (devname i)))"
    and ok: "0 \<le> fd'"
  shows "\<exists>ms s'. uio_open E (Some i) s = Inr (0, Some (i\<lparr>maps := ms, fd := fd'\<rparr>), s') \<and>
        length ms = length (maps i) \<and>
        calls s' = calls s @ Open (devname i) # map (mmap_call i fd') [0..<length (maps i)] \<and>
        diag s' = diag s \<and>
        (\<forall>k<length ms. ms ! k = (maps i ! k)
           \<lparr>map_m := fst (ret E (calls s @ Open (devname i) # map (mmap_call i fd') [0..<k])
                             (mmap_call i fd' k))\<rparr>)"
proof -
  let ?s1 = "snd (syscall E (Open (devname i)) s)"
  have fst_eq: "fst (ret E (calls s) (Open (devname i))) = fd'"
    by (simp add: fd')
  from wf have mx: "maxmap i = int (length (maps i))" by (simp add: wf_info_def)
  then have "0 \<le> maxmap i" by simp
  from mmap_loop_run [OF mx order_refl this, of E fd' ?s1]
  obtain ms s' where run: "mmap_loop E fd' 0 i ?s1 = Inr (i\<lparr>maps := ms\<rparr>, s')"
    and len: "length ms = length (maps i)"
    and c: "calls s' = calls ?s1 @ map (mmap_call i fd') [0..<length (maps i)]"
    and d: "diag s' = diag ?s1"
    and nth: "\<And>k. k < length ms \<Longrightarrow> ms ! k = (maps i ! k)
           \<lparr>map_m := fst (ret E (calls ?s1 @ map (mmap_call i fd') [0..<k]) (mmap_call i fd' k))\<rparr>"
    by auto
  have "uio_open E (Some i) s = Inr (0, Some (i\<lparr>maps := ms, fd := fd'\<rparr>), s')"
    using ok run by (simp add: uio_open_def case_prod_beta fst_eq)
  with len c d nth show ?thesis by auto
qed

lemma uio_close_null:
  "uio_close E None s = Inr (- 1, None, perror E ''uio_close'' (s\<lparr>errno := EINVAL\<rparr>))"
  by (simp add: uio_close_def)

lemma uio_close_run:
  assumes wf: "wf_info i"
  shows "\<exists>s'. uio_close E (Some i) s =
           Inr (0, Some (i\<lparr>maps := map (\<lambda>m. m\<lparr>map_m := MAP_FAILED\<rparr>) (maps i)\<rparr>), s') \<and>
         calls s' = calls s @ map (\<lambda>m. Munmap (map_m m) (size_m m))
                      (filter (\<lambda>m. map_m m \<noteq> MAP_FAILED) (maps i)) @ [Close (fd i)] \<and>
         diag s' = diag s"
proof -
  from wf have mx: "maxmap i = int (length (maps i))" by (simp add: wf_info_def)
  then have "0 \<le> maxmap i" by simp
  from munmap_loop_run [OF mx order_refl this, of E s]
  obtain s1 where run: "munmap_loop E 0 i s =
        Inr (i\<lparr>maps := map (\<lambda>m. m\<lparr>map_m := MAP_FAILED\<rparr>) (maps i)\<rparr>, s1)"
    and c: "calls s1 = calls s @ map (\<lambda>m. Munmap (map_m m) (size_m m))
                      (filter (\<lambda>m. map_m m \<noteq> MAP_FAILED) (maps i))"
    and d: "diag s1 = diag s"
    by auto
  show ?thesis
    using run c d by (simp add: uio_close_def)
qed

lemma wf_info_unmap [simp]:
  "wf_info (i\<lparr>maps := map f (maps i)\<rparr>) = wf_info i"
  by (simp add: wf_info_def)

lemma unmapped_unmap [simp]:
  "unmapped (i\<lparr>maps := map (\<lambda>m. m\<lparr>map_m := MAP_FAILED\<rparr>) (maps i)\<rparr>)"
  by (simp add: unmapped_def list_all_iff)

subsection \<open>Accessors\<close>

lemma accessors_null:
  "uio_get_mem_size None mp = Inr 0" "uio_get_offset None mp = Inr 0"
  "uio_get_mem_addr None mp = Inr 0" "uio_get_mem_map None mp = Inr NULL"
  "uio_get_name None = None" "uio_get_devname None = None" "uio_get_version None = None"
  "uio_get_major mj None = 0" "uio_get_minor mn None = 0"
  "uio_get_devid None = 0" "uio_get_maxmap None = 0"
  by (simp_all add: uio_get_mem_size_def uio_get_offset_def uio_get_mem_addr_def
      uio_get_mem_map_def uio_get_name_def uio_get_devname_def uio_get_version_def
      uio_get_major_def uio_get_minor_def uio_get_devid_def uio_get_maxmap_def)

lemma accessors_index_too_large:
  assumes "maxmap i \<le> mp"
  shows "uio_get_mem_size (Some i) mp = Inr 0" "uio_get_offset (Some i) mp = Inr 0"
    "uio_get_mem_addr (Some i) mp = Inr 0" "uio_get_mem_map (Some i) mp = Inr NULL"
  using assms
  by (simp_all add: uio_get_mem_size_def uio_get_offset_def uio_get_mem_addr_def
      uio_get_mem_map_def)

lemma accessors_in_range:
  assumes "wf_info i" "0 \<le> mp" "mp < maxmap i"
  shows "uio_get_mem_size (Some i) mp = Inr (size_m (maps i ! nat mp))"
    "uio_get_offset (Some i) mp = Inr (offset (maps i ! nat mp))"
    "uio_get_mem_addr (Some i) mp = Inr (addr (maps i ! nat mp))"
    "uio_get_mem_map (Some i) mp =
       Inr (if map_m (maps i ! nat mp) = MAP_FAILED then NULL else map_m (maps i ! nat mp))"
  using assms
  by (simp_all add: uio_get_mem_size_def uio_get_offset_def uio_get_mem_addr_def
      uio_get_mem_map_def maps_at_def wf_info_def)

lemma accessors_negative_index:
  assumes "mp < 0" "0 \<le> maxmap i"
  shows "uio_get_mem_size (Some i) mp = Inl OutOfBounds"
    "uio_get_offset (Some i) mp = Inl OutOfBounds"
    "uio_get_mem_addr (Some i) mp = Inl OutOfBounds"
    "uio_get_mem_map (Some i) mp = Inl OutOfBounds"
  using assms
  by (simp_all add: uio_get_mem_size_def uio_get_offset_def uio_get_mem_addr_def
      uio_get_mem_map_def maps_at_def)

text \<open>
  C3: every accessor returns the neutral value for a null descriptor and for any
  out-of-range map index, a negative one included. The code checks only
  \<^verbatim>\<open>map >= info->maxmap\<close>: with index -1 on the two-map device the four per-map
  accessors read \<^verbatim>\<open>info->maps [-1]\<close>, outside the array.
\<close>

theorem accessors_index_minus_one:
  "uio_get_mem_size (Some dev0) (- 1) = Inl OutOfBounds \<and>
   uio_get_offset (Some dev0) (- 1) = Inl OutOfBounds \<and>
   uio_get_mem_addr (Some dev0) (- 1) = Inl OutOfBounds \<and>
   uio_get_mem_map (Some dev0) (- 1) = Inl OutOfBounds"
  by (simp add: uio_get_mem_size_def uio_get_offset_def uio_get_mem_addr_def
      uio_get_mem_map_def maps_at_def dev0_def)

subsection \<open>Open\<close>

lemma wf_dev0: "wf_info dev0"
  by (simp add: wf_info_def dev0_def)

lemma wf_dev0_open: "wf_info dev0_open"
  by (simp add: wf_info_def dev0_open_def dev0_def)

lemma fd_dev0_open: "fd dev0_open \<noteq> - 1"
  by (simp add: dev0_open_def)

lemma linux_open_dev0: "fst (ret linux (calls sys0) (Open (devname dev0))) = 3"
  by (simp add: linux_def linux_ret_def)

lemma uio_open_dev0:
  "uio_open linux (Some dev0) sys0 =
     Inr (0, Some dev0_open,
          \<lparr>calls = [Open ''/dev/uio0'', Mmap 4096 3 0, Mmap 0 3 1], errno = EINVAL, diag = []\<rparr>)"
  by (simp add: uio_open_def dev0_open_def dev0_def map0_def map1_def sys0_def linux_def
      linux_ret_def syscall_def mmap_loop.simps maps_at_def MAP_FAILED_def)

text \<open>
  C1, as stated: \<^verbatim>\<open>uio_open\<close> issues no mapping call for a map of size 0. On the
  device with sizes 4096 and 0 it issues two, the second one with length 0 for index 1.
\<close>

theorem uio_open_zero_size_counterexample:
  "map size_m (maps dev0) = [4096, 0] \<and>
   uio_open linux (Some dev0) sys0 =
     Inr (0, Some dev0_open,
          \<lparr>calls = [Open ''/dev/uio0'', Mmap 4096 3 0, Mmap 0 3 1], errno = EINVAL, diag = []\<rparr>)"
  by (simp add: uio_open_dev0) (simp add: dev0_def map0_def map1_def)

text \<open>
  C1, amended: after the device node is opened, \<^verbatim>\<open>uio_open\<close> issues one mapping call
  for every map index below \<^verbatim>\<open>maxmap\<close>, in index order, with the declared size as
  the length and the index as the offset. A map of size 0 is not skipped: its call has
  length 0, and its pointer becomes whatever that call returns.
\<close>

theorem uio_open_maps_every_index:
  assumes "wf_info i"
    and "fd' = fst (ret E (calls s) (Open (devname i)))"
    and "0 \<le> fd'"
  shows "\<exists>ms s'. uio_open E (Some i) s = Inr (0, Some (i\<lparr>maps := ms, fd := fd'\<rparr>), s') \<and>
        length ms = length (maps i) \<and>
        calls s' = calls s @ Open (devname i) # map (mmap_call i fd') [0..<length (maps i)] \<and>
        (\<forall>k<length (maps i). size_m (maps i ! k) = 0 \<longrightarrow>
           mmap_call i fd' k = Mmap 0 fd' (int k) \<and>
           map_m (ms ! k) =
             fst (ret E (calls s @ Open (devname i) # map (mmap_call i fd') [0..<k])
                    (Mmap 0 fd' (int k))))"
proof -
  from uio_open_ok [OF assms]
  obtain ms s' where run: "uio_open E (Some i) s = Inr (0, Some (i\<lparr>maps := ms, fd := fd'\<rparr>), s')"
    and len: "length ms = length (maps i)"
    and c: "calls s' = calls s @ Open (devname i) # map (mmap_call i fd') [0..<length (maps i)]"
    and nth: "\<And>k. k < length ms \<Longrightarrow> ms ! k = (maps i ! k)
           \<lparr>map_m := fst (ret E (calls s @ Open (devname i) # map (mmap_call i fd') [0..<k])
                             (mmap_call i fd' k))\<rparr>"
    by blast
  have "mmap_call i fd' k = Mmap 0 fd' (int k) \<and>
        map_m (ms ! k) =
          fst (ret E (calls s @ Open (devname i) # map (mmap_call i fd') [0..<k])
                 (Mmap 0 fd' (int k)))"
    if "k < length (maps i)" "size_m (maps i ! k) = 0" for k
  proof -
    have eq: "mmap_call i fd' k = Mmap 0 fd' (int k)"
      using that by (simp add: mmap_call_def)
    from that len have "k < length ms" by simp
    from nth [OF this] eq show ?thesis by simp
  qed
  with run len c show ?thesis by blast
qed

theorem uio_open_maps_every_index_witness:
  "wf_info dev0 \<and> 3 = fst (ret linux (calls sys0) (Open (devname dev0))) \<and> (0::int) \<le> 3 \<and>
   (\<exists>ms s'. uio_open linux (Some dev0) sys0 = Inr (0, Some (dev0\<lparr>maps := ms, fd := 3\<rparr>), s') \<and>
      calls s' = [Open ''/dev/uio0'', Mmap 4096 3 0, Mmap 0 3 1] \<and>
      map_m (ms ! 1) = MAP_FAILED)"
proof -
  have h: "3 = fst (ret linux (calls sys0) (Open (devname dev0)))"
    by (simp add: linux_open_dev0)
  from uio_open_maps_every_index [OF wf_dev0 h]
  obtain ms s' where run: "uio_open linux (Some dev0) sys0 = Inr (0, Some (dev0\<lparr>maps := ms, fd := 3\<rparr>), s')"
    and c: "calls s' = calls sys0 @ Open (devname dev0) # map (mmap_call dev0 3) [0..<length (maps dev0)]"
    and z: "\<And>k. k < length (maps dev0) \<Longrightarrow> size_m (maps dev0 ! k) = 0 \<Longrightarrow>
           map_m (ms ! k) =
             fst (ret linux (calls sys0 @ Open (devname dev0) # map (mmap_call dev0 3) [0..<k])
                    (Mmap 0 3 (int k)))"
    by auto
  have c': "calls s' = [Open ''/dev/uio0'', Mmap 4096 3 0, Mmap 0 3 1]"
    using c by (simp add: dev0_def map0_def map1_def sys0_def mmap_call_def)
  have "map_m (ms ! 1) = MAP_FAILED"
    using z [of 1]
    by (simp add: dev0_def map0_def map1_def linux_def linux_ret_def MAP_FAILED_def)
  with run c' h wf_dev0 show ?thesis by auto
qed

text \<open>
  C4: on a non-null descriptor, a failed \<^verbatim>\<open>open\<close> makes \<^verbatim>\<open>uio_open\<close> return -1
  after that one call, with no mapping attempted (\<^verbatim>\<open>perror\<close> reports the
  \<^verbatim>\<open>errno\<close> that \<^verbatim>\<open>open\<close> left). Otherwise it attempts a mapping for every index in
  order, stores what each call returns in that slot's pointer, be it \<^verbatim>\<open>MAP_FAILED\<close>,
  stores the file handle and returns 0.
\<close>

theorem uio_open_failure_policy:
  assumes "wf_info i"
    and "fd' = fst (ret E (calls s) (Open (devname i)))"
    and "e = (case snd (ret E (calls s) (Open (devname i))) of None \<Rightarrow> errno s | Some x \<Rightarrow> x)"
  shows "(fd' < 0 \<longrightarrow>
          (\<exists>s'. uio_open E (Some i) s = Inr (- 1, Some i, s') \<and>
             calls s' = calls s @ [Open (devname i)] \<and>
             diag s' = diag s @ [(''open'', e)])) \<and>
         (0 \<le> fd' \<longrightarrow>
          (\<exists>ms s'. uio_open E (Some i) s = Inr (0, Some (i\<lparr>maps := ms, fd := fd'\<rparr>), s') \<and>
             length ms = length (maps i) \<and>
             calls s' = calls s @ Open (devname i) # map (mmap_call i fd') [0..<length (maps i)] \<and>
             (\<forall>k<length ms. ms ! k = (maps i ! k)
                \<lparr>map_m := fst (ret E (calls s @ Open (devname i) # map (mmap_call i fd') [0..<k])
                                  (mmap_call i fd' k))\<rparr>)))"
proof (intro conjI impI)
  assume neg: "fd' < 0"
  let ?s' = "perror E ''open'' (snd (syscall E (Open (devname i)) s))"
  have "uio_open E (Some i) s = Inr (- 1, Some i, ?s')"
    using neg assms(2) by (simp add: uio_open_fail)
  moreover have "calls ?s' = calls s @ [Open (devname i)]" by simp
  moreover have "diag ?s' = diag s @ [(''open'', e)]"
    by (simp add: syscall_errno assms(3))
  ultimately show "\<exists>s'. uio_open E (Some i) s = Inr (- 1, Some i, s') \<and>
             calls s' = calls s @ [Open (devname i)] \<and>
             diag s' = diag s @ [(''open'', e)]"
    by blast
next
  assume "0 \<le> fd'"
  from uio_open_ok [OF assms(1,2) this]
  show "\<exists>ms s'. uio_open E (Some i) s = Inr (0, Some (i\<lparr>maps := ms, fd := fd'\<rparr>), s') \<and>
             length ms = length (maps i) \<and>
             calls s' = calls s @ Open (devname i) # map (mmap_call i fd') [0..<length (maps i)] \<and>
             (\<forall>k<length ms. ms ! k = (maps i ! k)
                \<lparr>map_m := fst (ret E (calls s @ Open (devname i) # map (mmap_call i fd') [0..<k])
                                  (mmap_call i fd' k))\<rparr>)"
    by blast
qed

theorem uio_open_failure_policy_witness:
  "wf_info dev0 \<and>
   - 1 = fst (ret (answering (Open ''/dev/uio0'') (- 1, Some (OSError 13)) linux_stderr_closed) (calls sys0)
               (Open (devname dev0))) \<and>
   (\<exists>s'. uio_open (answering (Open ''/dev/uio0'') (- 1, Some (OSError 13)) linux_stderr_closed)
           (Some dev0) sys0 = Inr (- 1, Some dev0, s') \<and>
         calls s' = [Open ''/dev/uio0''] \<and> diag s' = [(''open'', OSError 13)]) \<and>
   3 = fst (ret linux (calls sys0) (Open (devname dev0))) \<and>
   (\<exists>ms s'. uio_open linux (Some dev0) sys0 = Inr (0, Some (dev0\<lparr>maps := ms, fd := 3\<rparr>), s') \<and>
         length ms = 2 \<and>
         calls s' = [Open ''/dev/uio0'', Mmap 4096 3 0, Mmap 0 3 1] \<and>
         map_m (ms ! 0) = 65536 \<and> map_m (ms ! 1) = MAP_FAILED)"
proof -
  let ?E = "answering (Open ''/dev/uio0'') (- 1, Some (OSError 13)) linux_stderr_closed"
  have h1: "- 1 = fst (ret ?E (calls sys0) (Open (devname dev0)))"
    by (simp add: answering_def dev0_def)
  have e1: "OSError 13 =
      (case snd (ret ?E (calls sys0) (Open (devname dev0))) of None \<Rightarrow> errno sys0 | Some x \<Rightarrow> x)"
    by (simp add: answering_def dev0_def)
  have h2: "3 = fst (ret linux (calls sys0) (Open (devname dev0)))"
    by (simp add: linux_open_dev0)
  have a: "\<exists>s'. uio_open ?E (Some dev0) sys0 = Inr (- 1, Some dev0, s') \<and>
         calls s' = [Open ''/dev/uio0''] \<and> diag s' = [(''open'', OSError 13)]"
    using uio_open_failure_policy [OF wf_dev0 h1 e1]
    by (simp add: sys0_def dev0_def)
  from uio_open_failure_policy [OF wf_dev0 h2 refl]
  obtain ms s' where run: "uio_open linux (Some dev0) sys0 = Inr (0, Some (dev0\<lparr>maps := ms, fd := 3\<rparr>), s')"
    and len: "length ms = length (maps dev0)"
    and c: "calls s' = calls sys0 @ Open (devname dev0) # map (mmap_call dev0 3) [0..<length (maps dev0)]"
    and nth: "\<And>k. k < length ms \<Longrightarrow> ms ! k = (maps dev0 ! k)
           \<lparr>map_m := fst (ret linux (calls sys0 @ Open (devname dev0) # map (mmap_call dev0 3) [0..<k])
                             (mmap_call dev0 3 k))\<rparr>"
    by auto
  have len': "length ms = 2" using len by (simp add: dev0_def)
  have c': "calls s' = [Open ''/dev/uio0'', Mmap 4096 3 0, Mmap 0 3 1]"
    using c by (simp add: dev0_def map0_def map1_def sys0_def mmap_call_def)
  have p0: "map_m (ms ! 0) = 65536"
    using nth [of 0] len'
    by (simp add: dev0_def map0_def map1_def linux_def linux_ret_def mmap_call_def)
  have p1: "map_m (ms ! 1) = MAP_FAILED"
    using nth [of 1] len'
    by (simp add: dev0_def map0_def map1_def linux_def linux_ret_def mmap_call_def MAP_FAILED_def)
  from run len' c' p0 p1 have b: "\<exists>ms s'. uio_open linux (Some dev0) sys0 = Inr (0, Some (dev0\<lparr>maps := ms, fd := 3\<rparr>), s') \<and>
         length ms = 2 \<and>
         calls s' = [Open ''/dev/uio0'', Mmap 4096 3 0, Mmap 0 3 1] \<and>
         map_m (ms ! 0) = 65536 \<and> map_m (ms ! 1) = MAP_FAILED"
    by blast
  from wf_dev0 h1 a h2 b show ?thesis by blast
qed

subsection \<open>Close\<close>

lemma uio_close_dev0_open:
  "uio_close linux (Some dev0_open)
     \<lparr>calls = [Open ''/dev/uio0'', Mmap 4096 3 0, Mmap 0 3 1], errno = EINVAL, diag = []\<rparr> =
   Inr (0, Some (dev0\<lparr>fd := 3\<rparr>),
        \<lparr>calls = [Open ''/dev/uio0'', Mmap 4096 3 0, Mmap 0 3 1, Munmap 65536 4096, Close 3],
           errno = EINVAL, diag = []\<rparr>)"
  by (simp add: uio_close_def dev0_open_def dev0_def map0_def map1_def linux_def
      linux_ret_def syscall_def munmap_loop.simps maps_at_def MAP_FAILED_def)

text \<open>
  The part of the round trip that holds: a successful \<^verbatim>\<open>uio_open\<close> of an unmapped
  descriptor followed by \<^verbatim>\<open>uio_close\<close> gives the descriptor back with every field
  as before, except \<^verbatim>\<open>fd\<close>, which keeps the handle that \<^verbatim>\<open>open\<close> returned.
\<close>

lemma open_close_round_trip:
  assumes wf: "wf_info i" and un: "unmapped i"
    and fd': "fd' = fst (ret E (calls s) (Open (devname i)))" and ok: "0 \<le> fd'"
  shows "\<exists>i1 s1 s2. uio_open E (Some i) s = Inr (0, Some i1, s1) \<and>
           uio_close E (Some i1) s1 = Inr (0, Some (i\<lparr>fd := fd'\<rparr>), s2)"
proof -
  from uio_open_ok [OF wf fd' ok]
  obtain ms s1 where run: "uio_open E (Some i) s = Inr (0, Some (i\<lparr>maps := ms, fd := fd'\<rparr>), s1)"
    and len: "length ms = length (maps i)"
    and nth: "\<And>k. k < length ms \<Longrightarrow> \<exists>p. ms ! k = (maps i ! k)\<lparr>map_m := p\<rparr>"
    by blast
  let ?i1 = "i\<lparr>maps := ms, fd := fd'\<rparr>"
  have "wf_info ?i1" using wf len by (simp add: wf_info_def)
  from uio_close_run [OF this, of E s1]
  obtain s2 where cl: "uio_close E (Some ?i1) s1 =
      Inr (0, Some (?i1\<lparr>maps := map (\<lambda>m. m\<lparr>map_m := MAP_FAILED\<rparr>) (maps ?i1)\<rparr>), s2)"
    by blast
  have "map (\<lambda>m. m\<lparr>map_m := MAP_FAILED\<rparr>) ms = maps i"
  proof (rule nth_equalityI)
    show "length (map (\<lambda>m. m\<lparr>map_m := MAP_FAILED\<rparr>) ms) = length (maps i)"
      using len by simp
  next
    fix k assume "k < length (map (\<lambda>m. m\<lparr>map_m := MAP_FAILED\<rparr>) ms)"
    then have k: "k < length ms" by simp
    from nth [OF k] obtain p where p: "ms ! k = (maps i ! k)\<lparr>map_m := p\<rparr>" by blast
    from un k len have "map_m (maps i ! k) = MAP_FAILED"
      by (simp add: unmapped_def list_all_length)
    then show "map (\<lambda>m. m\<lparr>map_m := MAP_FAILED\<rparr>) ms ! k = maps i ! k"
      using k p by simp
  qed
  then have "?i1\<lparr>maps := map (\<lambda>m. m\<lparr>map_m := MAP_FAILED\<rparr>) (maps ?i1)\<rparr> = i\<lparr>fd := fd'\<rparr>"
    by simp
  with run cl show ?thesis by metis
qed

text \<open>
  C2: \<^verbatim>\<open>uio_open\<close> followed by \<^verbatim>\<open>uio_close\<close> restores the descriptor, the file
  handle returning to the closed value -1. On the two-map device the handle is -1
  before, 3 after \<^verbatim>\<open>uio_open\<close>, and still 3 after \<^verbatim>\<open>uio_close\<close>, which calls
  \<^verbatim>\<open>close (3)\<close> and leaves \<^verbatim>\<open>info->fd\<close> as it was.
\<close>

theorem open_close_handle_not_reset:
  "unopened dev0 \<and>
   uio_open linux (Some dev0) sys0 =
     Inr (0, Some dev0_open,
          \<lparr>calls = [Open ''/dev/uio0'', Mmap 4096 3 0, Mmap 0 3 1], errno = EINVAL, diag = []\<rparr>) \<and>
   uio_close linux (Some dev0_open)
     \<lparr>calls = [Open ''/dev/uio0'', Mmap 4096 3 0, Mmap 0 3 1], errno = EINVAL, diag = []\<rparr> =
     Inr (0, Some (dev0\<lparr>fd := 3\<rparr>),
          \<lparr>calls = [Open ''/dev/uio0'', Mmap 4096 3 0, Mmap 0 3 1, Munmap 65536 4096, Close 3],
             errno = EINVAL, diag = []\<rparr>) \<and>
   fd (dev0\<lparr>fd := 3\<rparr>) = 3 \<and> \<not> unopened (dev0\<lparr>fd := 3\<rparr>)"
  by (simp add: uio_open_dev0 uio_close_dev0_open)
    (simp add: unopened_def unmapped_def dev0_def map0_def map1_def)

text \<open>
  C5: two calls of \<^verbatim>\<open>uio_close\<close> in a row on a non-null descriptor both return, and
  after each every pointer is \<^verbatim>\<open>MAP_FAILED\<close>. The first call unmaps exactly the maps
  whose pointer is not \<^verbatim>\<open>MAP_FAILED\<close>, in index order; the second unmaps none and only
  calls \<^verbatim>\<open>close\<close> again.
\<close>

theorem uio_close_twice:
  assumes "wf_info i"
  shows "\<exists>i1 s1 s2.
           uio_close E (Some i) s = Inr (0, Some i1, s1) \<and> unmapped i1 \<and>
           calls s1 = calls s @ map (\<lambda>m. Munmap (map_m m) (size_m m))
                        (filter (\<lambda>m. map_m m \<noteq> MAP_FAILED) (maps i)) @ [Close (fd i)] \<and>
           uio_close E (Some i1) s1 = Inr (0, Some i1, s2) \<and>
           calls s2 = calls s1 @ [Close (fd i)]"
proof -
  let ?i1 = "i\<lparr>maps := map (\<lambda>m. m\<lparr>map_m := MAP_FAILED\<rparr>) (maps i)\<rparr>"
  from uio_close_run [OF assms, of E s]
  obtain s1 where first: "uio_close E (Some i) s = Inr (0, Some ?i1, s1)"
    and c1: "calls s1 = calls s @ map (\<lambda>m. Munmap (map_m m) (size_m m))
                        (filter (\<lambda>m. map_m m \<noteq> MAP_FAILED) (maps i)) @ [Close (fd i)]"
    by blast
  have wf1: "wf_info ?i1" using assms by simp
  have none: "filter (\<lambda>m. map_m m \<noteq> MAP_FAILED) (maps ?i1) = []"
    by (simp add: filter_empty_conv)
  have same: "?i1\<lparr>maps := map (\<lambda>m. m\<lparr>map_m := MAP_FAILED\<rparr>) (maps ?i1)\<rparr> = ?i1"
    by (simp add: comp_def)
  from uio_close_run [OF wf1, of E s1]
  obtain s2 where second: "uio_close E (Some ?i1) s1 = Inr (0, Some ?i1, s2)"
    and c2: "calls s2 = calls s1 @ [Close (fd i)]"
    unfolding none same by auto
  have "unmapped ?i1" by simp
  with first c1 second c2 show ?thesis by blast
qed

theorem uio_close_twice_witness:
  "wf_info dev0_open \<and>
   (\<exists>i1 s1 s2.
      uio_close linux (Some dev0_open) sys0 = Inr (0, Some i1, s1) \<and> unmapped i1 \<and>
      calls s1 = [Munmap 65536 4096, Close 3] \<and>
      uio_close linux (Some i1) s1 = Inr (0, Some i1, s2) \<and>
      calls s2 = [Munmap 65536 4096, Close 3, Close 3])"
proof -
  from uio_close_twice [OF wf_dev0_open, of linux sys0]
  obtain i1 s1 s2 where a: "uio_close linux (Some dev0_open) sys0 = Inr (0, Some i1, s1)"
    and b: "unmapped i1"
    and c: "calls s1 = calls sys0 @ map (\<lambda>m. Munmap (map_m m) (size_m m))
              (filter (\<lambda>m. map_m m \<noteq> MAP_FAILED) (maps dev0_open)) @ [Close (fd dev0_open)]"
    and d: "uio_close linux (Some i1) s1 = Inr (0, Some i1, s2)"
    and e: "calls s2 = calls s1 @ [Close (fd dev0_open)]"
    by blast
  have c': "calls s1 = [Munmap 65536 4096, Close 3]"
    using c by (simp add: dev0_open_def dev0_def map0_def map1_def sys0_def MAP_FAILED_def)
  have e': "calls s2 = [Munmap 65536 4096, Close 3, Close 3]"
    using e c' by (simp add: dev0_open_def)
  from a b c' d e' wf_dev0_open show ?thesis by blast
qed

subsection \<open>Bytes written\<close>

lemma le_bytes_numeral [simp]:
  "le_bytes (numeral k) v = v mod 256 # le_bytes (pred_numeral k) (v div 256)"
  by (subst numeral_eq_Suc [of k]) simp

lemma le_bytes_zero: "le_bytes n 0 = replicate n 0"
  by (induction n) simp_all

lemma enable_bytes_linux: "take 4 (ulong_bytes linux 1) = [1, 0, 0, 0]"
  by (simp add: ulong_bytes_def linux_def)

lemma disable_bytes_linux: "take 4 (ulong_bytes linux 0) = [0, 0, 0, 0]"
  by (simp add: ulong_bytes_def linux_def)

lemma uint32_bytes_linux: "uint32_bytes linux 1 = [1, 0, 0, 0]" "uint32_bytes linux 0 = [0, 0, 0, 0]"
  by (simp_all add: uint32_bytes_def linux_def)

subsection \<open>Return code and frame of close\<close>

text \<open>
  C9: \<^verbatim>\<open>uio_close\<close> returns -1 for the null descriptor, after \<^verbatim>\<open>perror\<close> has
  reported \<^verbatim>\<open>EINVAL\<close> and with no call issued, and 0 for every non-null one,
  whatever the \<^verbatim>\<open>munmap\<close> and \<^verbatim>\<open>close\<close> calls return.
\<close>

theorem uio_close_return_code:
  assumes "wf_info i"
  shows "(\<exists>s'. uio_close E None s = Inr (- 1, None, s') \<and> calls s' = calls s \<and>
            diag s' = diag s @ [(''uio_close'', EINVAL)]) \<and>
         (\<exists>i' s'. uio_close E (Some i) s = Inr (0, Some i', s'))"
  using uio_close_run [OF assms, of E s] by (auto simp: uio_close_null)

theorem uio_close_return_code_witness:
  "wf_info dev0_open \<and>
   fst (ret (answering (Munmap 65536 4096) (- 1, Some EINVAL) linux_stderr_closed) []
          (Munmap 65536 4096)) = - 1 \<and>
   (\<exists>s'. uio_close (answering (Munmap 65536 4096) (- 1, Some EINVAL) linux_stderr_closed) None sys0 =
           Inr (- 1, None, s') \<and>
         calls s' = [] \<and> diag s' = [(''uio_close'', EINVAL)]) \<and>
   (\<exists>i' s'. uio_close (answering (Munmap 65536 4096) (- 1, Some EINVAL) linux_stderr_closed)
             (Some dev0_open) sys0 = Inr (0, Some i', s'))"
  using uio_close_return_code [OF wf_dev0_open,
      of "answering (Munmap 65536 4096) (- 1, Some EINVAL) linux_stderr_closed" sys0]
    wf_dev0_open
  by (simp add: answering_def sys0_def)

lemma irq_read_effect [simp]:
  "calls (snd (irq_read E i s)) = calls s @ [Read (fd i) 4]"
  "diag (snd (irq_read E i s)) = diag s"
  by (simp_all add: irq_read_def case_prod_beta)

lemma irqwait_timeout_diag:
  assumes "fd i \<noteq> - 1" and "uio_irqwait_timeout E (Some i) tmo s = Inr x"
  shows "diag (snd x) = diag s"
  using assms
  by (auto simp: uio_irqwait_timeout_def case_prod_beta split: option.splits if_splits)

lemma irqwait_timeout_not_rejected:
  assumes "fd i \<noteq> - 1"
  shows "uio_irqwait_timeout E (Some i) tmo s \<noteq>
           Inr (- 1, perror E ''uio_irqwait_timeout'' (s\<lparr>errno := EINVAL\<rparr>))"
proof
  assume "uio_irqwait_timeout E (Some i) tmo s =
           Inr (- 1, perror E ''uio_irqwait_timeout'' (s\<lparr>errno := EINVAL\<rparr>))"
  from irqwait_timeout_diag [OF assms this] show False by simp
qed

lemma irqwait_timeout_select:
  assumes "fd i \<noteq> - 1" "0 \<le> fd i" "fd i < FD_SETSIZE"
  shows "\<exists>x. uio_irqwait_timeout E (Some i) (Some tv) s = Inr x \<and>
           take (Suc (length (calls s))) (calls (snd x)) = calls s @ [Select (fd i + 1) [fd i] tv] \<and>
           diag (snd x) = diag s"
proof -
  let ?c = "Select (fd i + 1) [fd i] tv"
  let ?r = "fst (ret E (calls s) ?c)"
  let ?s1 = "snd (syscall E ?c s)"
  consider "?r = 0" | "?r = - 1" | "?r \<noteq> 0" "?r \<noteq> - 1" by blast
  then show ?thesis
  proof cases
    case 1
    with assms have "uio_irqwait_timeout E (Some i) (Some tv) s = Inr (- 1, ?s1\<lparr>errno := ETIMEDOUT\<rparr>)"
      by (simp add: uio_irqwait_timeout_def case_prod_beta)
    then show ?thesis by simp
  next
    case 2
    with assms have "uio_irqwait_timeout E (Some i) (Some tv) s = Inr (- 1, ?s1)"
      by (simp add: uio_irqwait_timeout_def case_prod_beta)
    then show ?thesis by simp
  next
    case 3
    with assms have "uio_irqwait_timeout E (Some i) (Some tv) s = Inr (irq_read E i ?s1)"
      by (simp add: uio_irqwait_timeout_def case_prod_beta)
    then show ?thesis by simp
  qed
qed

text \<open>
  C10: on a non-null descriptor \<^verbatim>\<open>uio_close\<close> changes nothing but the \<^verbatim>\<open>map\<close>
  pointers, which all become \<^verbatim>\<open>MAP_FAILED\<close>; \<^verbatim>\<open>fd\<close> keeps its value. So when the
  descriptor had been opened (\<^verbatim>\<open>fd\<close> is not -1), \<^verbatim>\<open>uio_enable_irq\<close>,
  \<^verbatim>\<open>uio_disable_irq\<close> and \<^verbatim>\<open>uio_irqwait_timeout\<close> called after \<^verbatim>\<open>uio_close\<close> do
  not take the \<^verbatim>\<open>EINVAL\<close> exit: they print nothing and go on to \<^verbatim>\<open>write\<close> or
  \<^verbatim>\<open>read\<close> on the stale handle, or, with a timeout and a handle that fits
  \<^verbatim>\<open>rfds\<close>, to \<^verbatim>\<open>select\<close>.
\<close>

theorem uio_close_frame:
  assumes "wf_info i"
  shows "\<exists>i' s'. uio_close E (Some i) s = Inr (0, Some i', s') \<and>
           i' = i\<lparr>maps := map (\<lambda>m. m\<lparr>map_m := MAP_FAILED\<rparr>) (maps i)\<rparr> \<and>
           fd i' = fd i \<and>
           (fd i \<noteq> - 1 \<longrightarrow>
              calls (snd (uio_enable_irq E (Some i') s')) =
                calls s' @ [Write (fd i) (take 4 (ulong_bytes E 1))] \<and>
              diag (snd (uio_enable_irq E (Some i') s')) = diag s' \<and>
              calls (snd (uio_disable_irq E (Some i') s')) =
                calls s' @ [Write (fd i) (take 4 (ulong_bytes E 0))] \<and>
              diag (snd (uio_disable_irq E (Some i') s')) = diag s' \<and>
              uio_irqwait_timeout E (Some i') None s' = Inr (irq_read E i' s') \<and>
              calls (snd (irq_read E i' s')) = calls s' @ [Read (fd i) 4] \<and>
              diag (snd (irq_read E i' s')) = diag s' \<and>
              (\<forall>tv. uio_irqwait_timeout E (Some i') (Some tv) s' \<noteq>
                      Inr (- 1, perror E ''uio_irqwait_timeout'' (s'\<lparr>errno := EINVAL\<rparr>)) \<and>
                    (0 \<le> fd i \<and> fd i < FD_SETSIZE \<longrightarrow>
                       (\<exists>x. uio_irqwait_timeout E (Some i') (Some tv) s' = Inr x \<and>
                          take (Suc (length (calls s'))) (calls (snd x)) =
                            calls s' @ [Select (fd i + 1) [fd i] tv] \<and>
                          diag (snd x) = diag s'))))"
proof -
  let ?i' = "i\<lparr>maps := map (\<lambda>m. m\<lparr>map_m := MAP_FAILED\<rparr>) (maps i)\<rparr>"
  from uio_close_run [OF assms, of E s]
  obtain s' where run: "uio_close E (Some i) s = Inr (0, Some ?i', s')"
    by blast
  have fd: "fd ?i' = fd i" by simp
  have A: "calls (snd (uio_enable_irq E (Some ?i') s')) =
             calls s' @ [Write (fd i) (take 4 (ulong_bytes E 1))] \<and>
           diag (snd (uio_enable_irq E (Some ?i') s')) = diag s' \<and>
           calls (snd (uio_disable_irq E (Some ?i') s')) =
             calls s' @ [Write (fd i) (take 4 (ulong_bytes E 0))] \<and>
           diag (snd (uio_disable_irq E (Some ?i') s')) = diag s' \<and>
           uio_irqwait_timeout E (Some ?i') None s' = Inr (irq_read E ?i' s') \<and>
           calls (snd (irq_read E ?i' s')) = calls s' @ [Read (fd i) 4] \<and>
           diag (snd (irq_read E ?i' s')) = diag s'"
    if "fd i \<noteq> - 1"
    using that
    by (simp add: uio_enable_irq_def uio_disable_irq_def uio_irqwait_timeout_def case_prod_beta)
  have B: "uio_irqwait_timeout E (Some ?i') (Some tv) s' \<noteq>
             Inr (- 1, perror E ''uio_irqwait_timeout'' (s'\<lparr>errno := EINVAL\<rparr>))"
    if "fd i \<noteq> - 1" for tv
    using that by (intro irqwait_timeout_not_rejected) simp
  have C: "\<exists>x. uio_irqwait_timeout E (Some ?i') (Some tv) s' = Inr x \<and>
             take (Suc (length (calls s'))) (calls (snd x)) = calls s' @ [Select (fd i + 1) [fd i] tv] \<and>
             diag (snd x) = diag s'"
    if "fd i \<noteq> - 1" "0 \<le> fd i" "fd i < FD_SETSIZE" for tv
    using irqwait_timeout_select [of ?i' E tv s'] that by simp
  from run fd A B C show ?thesis by blast
qed

theorem uio_close_frame_witness:
  "wf_info dev0_open \<and> fd dev0_open \<noteq> - 1 \<and> 0 \<le> fd dev0_open \<and> fd dev0_open < FD_SETSIZE \<and>
   (\<exists>s'. uio_close linux (Some dev0_open) sys0 = Inr (0, Some (dev0\<lparr>fd := 3\<rparr>), s') \<and>
      calls (snd (uio_enable_irq linux (Some (dev0\<lparr>fd := 3\<rparr>)) s')) = calls s' @ [Write 3 [1, 0, 0, 0]] \<and>
      diag (snd (uio_enable_irq linux (Some (dev0\<lparr>fd := 3\<rparr>)) s')) = diag s' \<and>
      uio_irqwait_timeout linux (Some (dev0\<lparr>fd := 3\<rparr>)) None s' = Inr (irq_read linux (dev0\<lparr>fd := 3\<rparr>) s') \<and>
      (\<exists>x. uio_irqwait_timeout linux (Some (dev0\<lparr>fd := 3\<rparr>)) (Some (0, 0)) s' = Inr x \<and>
         take (Suc (length (calls s'))) (calls (snd x)) = calls s' @ [Select 4 [3] (0, 0)] \<and>
         diag (snd x) = diag s'))"
proof -
  have f: "fd dev0_open \<noteq> - 1" "0 \<le> fd dev0_open" "fd dev0_open < FD_SETSIZE"
    by (simp_all add: dev0_open_def FD_SETSIZE_def)
  have e: "dev0_open\<lparr>maps := map (\<lambda>m. m\<lparr>map_m := MAP_FAILED\<rparr>) (maps dev0_open)\<rparr> = dev0\<lparr>fd := 3\<rparr>"
    by (simp add: dev0_open_def dev0_def map0_def map1_def)
  have f3: "fd dev0_open = 3" by (simp add: dev0_open_def)
  note b = enable_bytes_linux
  from uio_close_frame [OF wf_dev0_open, of linux sys0]
  obtain i' s' where run: "uio_close linux (Some dev0_open) sys0 = Inr (0, Some i', s')"
    and i': "i' = dev0_open\<lparr>maps := map (\<lambda>m. m\<lparr>map_m := MAP_FAILED\<rparr>) (maps dev0_open)\<rparr>"
    and rest: "fd dev0_open \<noteq> - 1 \<longrightarrow>
              calls (snd (uio_enable_irq linux (Some i') s')) =
                calls s' @ [Write (fd dev0_open) (take 4 (ulong_bytes linux 1))] \<and>
              diag (snd (uio_enable_irq linux (Some i') s')) = diag s' \<and>
              calls (snd (uio_disable_irq linux (Some i') s')) =
                calls s' @ [Write (fd dev0_open) (take 4 (ulong_bytes linux 0))] \<and>
              diag (snd (uio_disable_irq linux (Some i') s')) = diag s' \<and>
              uio_irqwait_timeout linux (Some i') None s' = Inr (irq_read linux i' s') \<and>
              calls (snd (irq_read linux i' s')) = calls s' @ [Read (fd dev0_open) 4] \<and>
              diag (snd (irq_read linux i' s')) = diag s' \<and>
              (\<forall>tv. uio_irqwait_timeout linux (Some i') (Some tv) s' \<noteq>
                      Inr (- 1, perror linux ''uio_irqwait_timeout'' (s'\<lparr>errno := EINVAL\<rparr>)) \<and>
                    (0 \<le> fd dev0_open \<and> fd dev0_open < FD_SETSIZE \<longrightarrow>
                       (\<exists>x. uio_irqwait_timeout linux (Some i') (Some tv) s' = Inr x \<and>
                          take (Suc (length (calls s'))) (calls (snd x)) =
                            calls s' @ [Select (fd dev0_open + 1) [fd dev0_open] tv] \<and>
                          diag (snd x) = diag s')))"
    by (elim exE conjE) (rule that)
  have i3: "i' = dev0\<lparr>fd := 3\<rparr>" using i' e by simp
  note rest' = rest [rule_format, OF f(1)]
  have r1: "calls (snd (uio_enable_irq linux (Some (dev0\<lparr>fd := 3\<rparr>)) s')) = calls s' @ [Write 3 [1, 0, 0, 0]]"
    using rest' [THEN conjunct1] unfolding i3 f3 b .
  have r2: "diag (snd (uio_enable_irq linux (Some (dev0\<lparr>fd := 3\<rparr>)) s')) = diag s'"
    using rest' [THEN conjunct2, THEN conjunct1] unfolding i3 .
  have r3: "uio_irqwait_timeout linux (Some (dev0\<lparr>fd := 3\<rparr>)) None s' =
              Inr (irq_read linux (dev0\<lparr>fd := 3\<rparr>) s')"
    using rest' [THEN conjunct2, THEN conjunct2, THEN conjunct2, THEN conjunct2, THEN conjunct1]
    unfolding i3 .
  have all: "\<forall>tv. uio_irqwait_timeout linux (Some i') (Some tv) s' \<noteq>
                      Inr (- 1, perror linux ''uio_irqwait_timeout'' (s'\<lparr>errno := EINVAL\<rparr>)) \<and>
                    (0 \<le> fd dev0_open \<and> fd dev0_open < FD_SETSIZE \<longrightarrow>
                       (\<exists>x. uio_irqwait_timeout linux (Some i') (Some tv) s' = Inr x \<and>
                          take (Suc (length (calls s'))) (calls (snd x)) =
                            calls s' @ [Select (fd dev0_open + 1) [fd dev0_open] tv] \<and>
                          diag (snd x) = diag s'))"
    using rest' [THEN conjunct2, THEN conjunct2, THEN conjunct2, THEN conjunct2, THEN conjunct2,
        THEN conjunct2, THEN conjunct2] .
  from all [rule_format, of "(0, 0)", THEN conjunct2, rule_format, OF conjI, OF f(2) f(3)]
  have r4: "\<exists>x. uio_irqwait_timeout linux (Some (dev0\<lparr>fd := 3\<rparr>)) (Some (0, 0)) s' = Inr x \<and>
         take (Suc (length (calls s'))) (calls (snd x)) = calls s' @ [Select 4 [3] (0, 0)] \<and>
         diag (snd x) = diag s'"
    unfolding i3 f3 by simp
  have run': "uio_close linux (Some dev0_open) sys0 = Inr (0, Some (dev0\<lparr>fd := 3\<rparr>), s')"
    using run unfolding i3 .
  from run' r1 r2 r3 r4
  have ex: "\<exists>s'. uio_close linux (Some dev0_open) sys0 = Inr (0, Some (dev0\<lparr>fd := 3\<rparr>), s') \<and>
      calls (snd (uio_enable_irq linux (Some (dev0\<lparr>fd := 3\<rparr>)) s')) = calls s' @ [Write 3 [1, 0, 0, 0]] \<and>
      diag (snd (uio_enable_irq linux (Some (dev0\<lparr>fd := 3\<rparr>)) s')) = diag s' \<and>
      uio_irqwait_timeout linux (Some (dev0\<lparr>fd := 3\<rparr>)) None s' = Inr (irq_read linux (dev0\<lparr>fd := 3\<rparr>) s') \<and>
      (\<exists>x. uio_irqwait_timeout linux (Some (dev0\<lparr>fd := 3\<rparr>)) (Some (0, 0)) s' = Inr x \<and>
         take (Suc (length (calls s'))) (calls (snd x)) = calls s' @ [Select 4 [3] (0, 0)] \<and>
         diag (snd x) = diag s')"
    by (intro exI [of _ s'] conjI)
  from wf_dev0_open f ex show ?thesis by (intro conjI)
qed

subsection \<open>Interrupts\<close>

lemma take_le_bytes: "k \<le> n \<Longrightarrow> take k (le_bytes n v) = le_bytes k v"
proof (induction k arbitrary: n v)
  case 0
  then show ?case by simp
next
  case (Suc k)
  then obtain m where "n = Suc m" "k \<le> m" by (auto dest: Suc_le_D)
  with Suc.IH [of m "v div 256"] show ?case by simp
qed

lemma enable_bytes:
  assumes "4 \<le> sizeof_long E" and "\<not> big_endian E \<or> sizeof_long E = 4"
  shows "take 4 (ulong_bytes E 1) = uint32_bytes E 1"
proof (cases "big_endian E")
  case True
  with assms have "sizeof_long E = 4" by blast
  with True show ?thesis by (simp add: ulong_bytes_def uint32_bytes_def)
next
  case False
  with assms(1) show ?thesis
    by (simp add: ulong_bytes_def uint32_bytes_def take_le_bytes del: le_bytes_numeral)
qed

lemma disable_bytes:
  assumes "4 \<le> sizeof_long E"
  shows "take 4 (ulong_bytes E 0) = uint32_bytes E 0"
  using assms
  by (simp add: ulong_bytes_def uint32_bytes_def le_bytes_zero del: le_bytes_numeral)

text \<open>
  On a big-endian platform with an 8-byte \<^verbatim>\<open>unsigned long\<close> the first four bytes
  of \<^verbatim>\<open>tmp\<close> are 0 for enable as for disable.
\<close>

lemma enable_bytes_big_endian_lp64:
  assumes "big_endian E" "sizeof_long E = 8"
  shows "take 4 (ulong_bytes E 1) = [0, 0, 0, 0]" "take 4 (ulong_bytes E 1) = take 4 (ulong_bytes E 0)"
  using assms by (simp_all add: ulong_bytes_def)



lemma int_of_ssize_id:
  assumes "- 2147483648 \<le> n" "n < 2147483648"
  shows "int_of_ssize n = n"
  using assms by (simp add: int_of_ssize_def)

lemma int_of_ssize_narrows: "int_of_ssize 2147483648 = - 2147483648"
  by (simp add: int_of_ssize_def)

lemma irq_read_result:
  "irq_read E i s =
     (if int_of_ssize (fst (ret E (calls s) (Read (fd i) 4))) < 0
      then int_of_ssize (fst (ret E (calls s) (Read (fd i) 4))) else 0,
      snd (syscall E (Read (fd i) 4) s))"
  by (simp add: irq_read_def case_prod_beta)

text \<open>
  With a timeout, a handle that does not fit \<^verbatim>\<open>rfds\<close> makes \<^verbatim>\<open>FD_SET\<close> write
  outside the object.
\<close>

lemma irqwait_timeout_fd_setsize:
  assumes "fd i \<noteq> - 1" "fd i < 0 \<or> FD_SETSIZE \<le> fd i"
  shows "uio_irqwait_timeout E (Some i) (Some tv) s = Inl OutOfBounds"
  using assms by (auto simp: uio_irqwait_timeout_def)



subsection \<open>Discovery\<close>

lemma create_uio_info_simps [simp]:
  "fst (create_uio_info E d n s) = factory E (calls s) d n"
  "calls (snd (create_uio_info E d n s)) = calls s @ [Create_uio_info d n]"
  "errno (snd (create_uio_info E d n s)) = errno s"
  "diag (snd (create_uio_info E d n s)) = diag s"
  by (simp_all add: create_uio_info_def)

lemma fill_loop_run:
  "t + length (valid_names ns) \<le> length info \<Longrightarrow>
   \<exists>ds s'. fill_loop E d ns t info s = Inr (take t info @ ds @ drop (t + length ds) info, s') \<and>
      length ds = length (valid_names ns) \<and>
      calls s' = calls s @ map (Create_uio_info d) (valid_names ns) \<and>
      errno s' = errno s \<and> diag s' = diag s \<and>
      (\<forall>k<length ds. ds ! k =
         factory E (calls s @ map (Create_uio_info d) (take k (valid_names ns))) d (valid_names ns ! k))"
proof (induction ns arbitrary: t info s)
  case Nil
  then show ?case by (simp add: valid_names_def)
next
  case (Cons n ns)
  show ?case
  proof (cases "n = ''.'' \<or> n = ''..''")
    case True
    then have v: "valid_names (n # ns) = valid_names ns" by (auto simp: valid_names_def)
    from True have f: "fill_loop E d (n # ns) t info s = fill_loop E d ns t info s" by auto
    from Cons.prems v have "t + length (valid_names ns) \<le> length info" by simp
    from Cons.IH [OF this, of s] show ?thesis unfolding v f .
  next
    case False
    then have v: "valid_names (n # ns) = n # valid_names ns" by (auto simp: valid_names_def)
    let ?x = "factory E (calls s) d n"
    let ?s1 = "snd (create_uio_info E d n s)"
    let ?info1 = "info[t := ?x]"
    from Cons.prems v have t: "t < length info" by simp
    from False t have f: "fill_loop E d (n # ns) t info s = fill_loop E d ns (t + 1) ?info1 ?s1"
      by auto
    from Cons.prems v have "(t + 1) + length (valid_names ns) \<le> length ?info1" by simp
    from Cons.IH [OF this, of ?s1]
    obtain ds s' where run: "fill_loop E d ns (t + 1) ?info1 ?s1 =
          Inr (take (t + 1) ?info1 @ ds @ drop (t + 1 + length ds) ?info1, s')"
      and len: "length ds = length (valid_names ns)"
      and c: "calls s' = calls ?s1 @ map (Create_uio_info d) (valid_names ns)"
      and e: "errno s' = errno ?s1" and g: "diag s' = diag ?s1"
      and nth: "\<And>k. k < length ds \<Longrightarrow> ds ! k =
         factory E (calls ?s1 @ map (Create_uio_info d) (take k (valid_names ns))) d (valid_names ns ! k)"
      by blast
    have tk: "take (t + 1) ?info1 = take t info @ [?x]"
      using t by (simp add: take_Suc_conv_app_nth)
    have dr: "drop (t + 1 + length ds) ?info1 = drop (t + length (?x # ds)) info"
      by simp
    have A: "fill_loop E d (n # ns) t info s =
          Inr (take t info @ (?x # ds) @ drop (t + length (?x # ds)) info, s')"
      unfolding f run tk dr by simp
    have B: "length (?x # ds) = length (valid_names (n # ns))" using len v by simp
    have C: "calls s' = calls s @ map (Create_uio_info d) (valid_names (n # ns))"
      using c v by simp
    have D: "errno s' = errno s" "diag s' = diag s" using e g by simp_all
    have E: "(?x # ds) ! k =
         factory E (calls s @ map (Create_uio_info d) (take k (valid_names (n # ns)))) d
           (valid_names (n # ns) ! k)" if "k < length (?x # ds)" for k
    proof (cases k)
      case 0
      then show ?thesis by (simp add: v)
    next
      case (Suc j)
      with that have "j < length ds" by simp
      from nth [OF this] Suc show ?thesis by (simp add: v)
    qed
    from A B C D E show ?thesis by blast
  qed
qed

lemma valid_names_sort: "valid_names (sort_key f ns) = sort_key f (valid_names ns)"
  by (simp add: valid_names_def filter_sort)

lemma length_valid_names: "length (valid_names ns) \<le> length ns"
  by (simp add: valid_names_def)

lemma uio_find_devices_scandir_fails:
  assumes "dirents E (calls s) (sysfsname sysfs) = Inl e"
  shows "\<exists>s'. uio_find_devices E sysfs s = Inr (None, s') \<and>
           calls s' = calls s @ [Scandir (sysfsname sysfs)] \<and>
           diag s' = diag s @ [(''scandir'', e)]"
  using assms by (simp add: uio_find_devices_def scandir_def)

lemma uio_find_devices_calloc_fails:
  assumes "dirents E (calls s) (sysfsname sysfs) = Inr names"
    and "fst (ret E (calls s @ [Scandir (sysfsname sysfs)]) (Calloc (int (length names)))) = NULL"
  shows "\<exists>s'. uio_find_devices E sysfs s = Inr (None, s') \<and>
           calls s' = calls s @ [Scandir (sysfsname sysfs), Calloc (int (length names))] \<and>
           diag s' = diag s @ [(''calloc'', ENOMEM)]"
  using assms
  by (simp add: uio_find_devices_def scandir_def case_prod_beta)

lemma uio_find_devices_ok:
  assumes dir: "dirents E (calls s) (sysfsname sysfs) = Inr names"
    and p: "fst (ret E (calls s @ [Scandir (sysfsname sysfs)]) (Calloc (int (length names)))) \<noteq> NULL"
  shows "\<exists>ds s'. uio_find_devices E sysfs s =
             Inr (Some (ds @ replicate (length names - length ds) None), s') \<and>
           length ds = length (valid_names names) \<and>
           calls s' = calls s @ [Scandir (sysfsname sysfs), Calloc (int (length names))] @
                        map (Create_uio_info (sysfsname sysfs)) (sort_key (strxfrm E) (valid_names names)) \<and>
           diag s' = diag s \<and>
           (\<forall>k<length ds. ds ! k =
              factory E (calls s @ [Scandir (sysfsname sysfs), Calloc (int (length names))] @
                           map (Create_uio_info (sysfsname sysfs)) (take k (sort_key (strxfrm E) (valid_names names))))
                (sysfsname sysfs) (sort_key (strxfrm E) (valid_names names) ! k))"
proof -
  let ?d = "sysfsname sysfs"
  let ?s1 = "s\<lparr>calls := calls s @ [Scandir ?d]\<rparr>"
  let ?s2 = "snd (syscall E (Calloc (int (length names))) ?s1)"
  let ?vs = "sort_key (strxfrm E) (valid_names names)"
  have "0 + length (valid_names (sort_key (strxfrm E) names)) \<le> length (replicate (length names) (None :: uio_info_t option))"
    by (simp add: valid_names_sort length_valid_names)
  from fill_loop_run [OF this, of E ?d ?s2]
  obtain ds s' where run: "fill_loop E ?d (sort_key (strxfrm E) names) 0 (replicate (length names) None) ?s2 =
        Inr (ds @ drop (length ds) (replicate (length names) None), s')"
    and len: "length ds = length ?vs"
    and c: "calls s' = calls ?s2 @ map (Create_uio_info ?d) ?vs"
    and g: "diag s' = diag ?s2"
    and nth: "\<And>k. k < length ds \<Longrightarrow> ds ! k =
         factory E (calls ?s2 @ map (Create_uio_info ?d) (take k ?vs)) ?d (?vs ! k)"
    unfolding valid_names_sort by auto
  have A: "uio_find_devices E sysfs s = Inr (Some (ds @ replicate (length names - length ds) None), s')"
    using dir p run by (simp add: uio_find_devices_def scandir_def case_prod_beta)
  have B: "length ds = length (valid_names names)" using len by simp
  have C: "calls s' = calls s @ [Scandir ?d, Calloc (int (length names))] @ map (Create_uio_info ?d) ?vs"
    using c by simp
  have D: "diag s' = diag s" using g by simp
  have E: "ds ! k = factory E (calls s @ [Scandir ?d, Calloc (int (length names))] @
                           map (Create_uio_info ?d) (take k ?vs)) ?d (?vs ! k)"
    if "k < length ds" for k
    using nth [OF that] by simp
  from A B C D E show ?thesis by blast
qed

lemma sysfsname_default: "sysfsname sysfs_default = ''/sys/class/uio''"
  by (simp add: sysfsname_def sysfs_default_def PATH_MAX_def)

lemma uio_find_devices_linux:
  "uio_find_devices linux sysfs_default sys0 =
     Inr (Some [Some (dev0\<lparr>devname := ''/dev/uio0''\<rparr>), Some (dev0\<lparr>devname := ''/dev/uio1''\<rparr>),
                Some (dev0\<lparr>devname := ''/dev/uio2''\<rparr>), None, None],
          \<lparr>calls = [Scandir ''/sys/class/uio'', Calloc 5,
                     Create_uio_info ''/sys/class/uio'' ''uio0'',
                     Create_uio_info ''/sys/class/uio'' ''uio1'',
                     Create_uio_info ''/sys/class/uio'' ''uio2''],
             errno = OSError 0, diag = []\<rparr>)"
  by (simp add: uio_find_devices_def scandir_def sysfsname_def sysfs_default_def PATH_MAX_def
      linux_def linux_ret_def syscall_def sys0_def create_uio_info_def NULL_def eval_nat_numeral)

lemma uio_find_devices_no_memory:
  "uio_find_devices (answering (Calloc 5) (0, Some ENOMEM) linux) sysfs_default sys0 =
     Inr (None, \<lparr>calls = [Scandir ''/sys/class/uio'', Calloc 5], errno = ENOMEM,
                  diag = [(''calloc'', ENOMEM)]\<rparr>)"
  by (simp add: uio_find_devices_def scandir_def sysfsname_def sysfs_default_def PATH_MAX_def
      linux_def linux_ret_def syscall_def sys0_def answering_def NULL_def perror_def)

text \<open>
  C8, as stated: \<^verbatim>\<open>uio_find_devices\<close> returns \<^verbatim>\<open>NULL\<close> only when the directory
  cannot be listed, and the returned array is as long as the number of entries other
  than \<^verbatim>\<open>.\<close> and \<^verbatim>\<open>..\<close>. With the five entries of the concrete directory, three
  of them devices, the array has five slots; and when \<^verbatim>\<open>calloc\<close> fails the listing
  was obtained and the result is \<^verbatim>\<open>NULL\<close>.
\<close>

theorem uio_find_devices_counterexample:
  "dirents linux [] ''/sys/class/uio'' = Inr [''uio0'', ''..'', ''uio2'', ''.'', ''uio1''] \<and>
   valid_names [''uio0'', ''..'', ''uio2'', ''.'', ''uio1''] = [''uio0'', ''uio2'', ''uio1''] \<and>
   uio_find_devices linux sysfs_default sys0 =
     Inr (Some [Some (dev0\<lparr>devname := ''/dev/uio0''\<rparr>), Some (dev0\<lparr>devname := ''/dev/uio1''\<rparr>),
                Some (dev0\<lparr>devname := ''/dev/uio2''\<rparr>), None, None],
          \<lparr>calls = [Scandir ''/sys/class/uio'', Calloc 5,
                     Create_uio_info ''/sys/class/uio'' ''uio0'',
                     Create_uio_info ''/sys/class/uio'' ''uio1'',
                     Create_uio_info ''/sys/class/uio'' ''uio2''],
             errno = OSError 0, diag = []\<rparr>) \<and>
   dirents (answering (Calloc 5) (0, Some ENOMEM) linux) [] ''/sys/class/uio'' =
     Inr [''uio0'', ''..'', ''uio2'', ''.'', ''uio1''] \<and>
   uio_find_devices (answering (Calloc 5) (0, Some ENOMEM) linux) sysfs_default sys0 =
     Inr (None, \<lparr>calls = [Scandir ''/sys/class/uio'', Calloc 5], errno = ENOMEM,
                  diag = [(''calloc'', ENOMEM)]\<rparr>)"
  by (simp add: uio_find_devices_linux uio_find_devices_no_memory)
    (simp add: linux_def answering_def valid_names_def)

lemma sort_key_c_locale:
  assumes "\<forall>n. strxfrm E n = n"
  shows "sort_key (strxfrm E) ns = sort ns"
proof -
  from assms have "strxfrm E = (\<lambda>n. n)" by (intro ext) simp
  then show ?thesis by simp
qed

text \<open>
  C8, amended: \<^verbatim>\<open>uio_find_devices\<close> returns \<^verbatim>\<open>NULL\<close> when the directory
  \<^verbatim>\<open>class/uio\<close> cannot be listed, and also when the result array cannot be allocated
  (\<^verbatim>\<open>perror\<close> then reports \<^verbatim>\<open>ENOMEM\<close>). Otherwise it skips \<^verbatim>\<open>.\<close> and \<^verbatim>\<open>..\<close>,
  calls the factory once for every other entry, in the order of \<^verbatim>\<open>alphasort\<close>, which
  in the "C" locale is the lexicographic order of the names, and stores the results
  in that order at the front of the array. The array has one slot per listed entry,
  the pseudo-entries included; the slots behind the results are \<^verbatim>\<open>NULL\<close>.
\<close>

theorem uio_find_devices_result:
  assumes "d = sysfsname sysfs"
  shows "(\<forall>e. dirents E (calls s) d = Inl e \<longrightarrow>
            (\<exists>s'. uio_find_devices E sysfs s = Inr (None, s') \<and>
               calls s' = calls s @ [Scandir d] \<and>
               diag s' = diag s @ [(''scandir'', e)])) \<and>
         (\<forall>names. dirents E (calls s) d = Inr names \<longrightarrow>
            (fst (ret E (calls s @ [Scandir d]) (Calloc (int (length names)))) = NULL \<longrightarrow>
               (\<exists>s'. uio_find_devices E sysfs s = Inr (None, s') \<and>
                  calls s' = calls s @ [Scandir d, Calloc (int (length names))] \<and>
                  diag s' = diag s @ [(''calloc'', ENOMEM)])) \<and>
            (fst (ret E (calls s @ [Scandir d]) (Calloc (int (length names)))) \<noteq> NULL \<longrightarrow>
               (\<exists>ds s'. uio_find_devices E sysfs s =
                    Inr (Some (ds @ replicate (length names - length ds) None), s') \<and>
                  length ds = length (valid_names names) \<and>
                  calls s' = calls s @ [Scandir d, Calloc (int (length names))] @
                               map (Create_uio_info d) (sort_key (strxfrm E) (valid_names names)) \<and>
                  (\<forall>k<length ds. ds ! k =
                     factory E (calls s @ [Scandir d, Calloc (int (length names))] @
                                  map (Create_uio_info d)
                                    (take k (sort_key (strxfrm E) (valid_names names))))
                       d (sort_key (strxfrm E) (valid_names names) ! k)))) \<and>
            ((\<forall>n. strxfrm E n = n) \<longrightarrow>
               sort_key (strxfrm E) (valid_names names) = sort (valid_names names)))"
proof (intro conjI allI impI)
  fix e assume "dirents E (calls s) d = Inl e"
  then show "\<exists>s'. uio_find_devices E sysfs s = Inr (None, s') \<and>
               calls s' = calls s @ [Scandir d] \<and>
               diag s' = diag s @ [(''scandir'', e)]"
    unfolding assms by (rule uio_find_devices_scandir_fails)
next
  fix names
  assume "dirents E (calls s) d = Inr names"
    and "fst (ret E (calls s @ [Scandir d]) (Calloc (int (length names)))) = NULL"
  then show "\<exists>s'. uio_find_devices E sysfs s = Inr (None, s') \<and>
                  calls s' = calls s @ [Scandir d, Calloc (int (length names))] \<and>
                  diag s' = diag s @ [(''calloc'', ENOMEM)]"
    unfolding assms by (rule uio_find_devices_calloc_fails)
next
  fix names
  assume "dirents E (calls s) d = Inr names"
    and "fst (ret E (calls s @ [Scandir d]) (Calloc (int (length names)))) \<noteq> NULL"
  then show "\<exists>ds s'. uio_find_devices E sysfs s =
                    Inr (Some (ds @ replicate (length names - length ds) None), s') \<and>
                  length ds = length (valid_names names) \<and>
                  calls s' = calls s @ [Scandir d, Calloc (int (length names))] @
                               map (Create_uio_info d) (sort_key (strxfrm E) (valid_names names)) \<and>
                  (\<forall>k<length ds. ds ! k =
                     factory E (calls s @ [Scandir d, Calloc (int (length names))] @
                                  map (Create_uio_info d)
                                    (take k (sort_key (strxfrm E) (valid_names names))))
                       d (sort_key (strxfrm E) (valid_names names) ! k))"
    unfolding assms using uio_find_devices_ok [of E s sysfs names] by blast
next
  fix names
  assume "\<forall>n. strxfrm E n = n"
  then show "sort_key (strxfrm E) (valid_names names) = sort (valid_names names)"
    by (rule sort_key_c_locale)
qed

theorem uio_find_devices_result_witness:
  "''/sys/class/uio'' = sysfsname sysfs_default \<and>
   dirents (linux_stderr_closed\<lparr>dirents := \<lambda>h d. Inl (OSError 2)\<rparr>) (calls sys0) ''/sys/class/uio'' =
     Inl (OSError 2) \<and>
   (\<exists>s'. uio_find_devices (linux_stderr_closed\<lparr>dirents := \<lambda>h d. Inl (OSError 2)\<rparr>) sysfs_default sys0 =
           Inr (None, s') \<and>
      calls s' = [Scandir ''/sys/class/uio''] \<and> diag s' = [(''scandir'', OSError 2)]) \<and>
   dirents linux (calls sys0) ''/sys/class/uio'' = Inr [''uio0'', ''..'', ''uio2'', ''.'', ''uio1''] \<and>
   fst (ret (answering (Calloc 5) (0, Some ENOMEM) linux) [Scandir ''/sys/class/uio''] (Calloc 5)) = NULL \<and>
   (\<exists>s'. uio_find_devices (answering (Calloc 5) (0, Some ENOMEM) linux) sysfs_default sys0 = Inr (None, s') \<and>
      calls s' = [Scandir ''/sys/class/uio'', Calloc 5] \<and> diag s' = [(''calloc'', ENOMEM)]) \<and>
   fst (ret linux [Scandir ''/sys/class/uio''] (Calloc 5)) \<noteq> NULL \<and>
   (\<exists>ds s'. uio_find_devices linux sysfs_default sys0 = Inr (Some (ds @ replicate (5 - length ds) None), s') \<and>
      length ds = 3 \<and>
      calls s' = [Scandir ''/sys/class/uio'', Calloc 5,
                  Create_uio_info ''/sys/class/uio'' ''uio0'',
                  Create_uio_info ''/sys/class/uio'' ''uio1'',
                  Create_uio_info ''/sys/class/uio'' ''uio2''] \<and>
      ds ! 1 = Some (dev0\<lparr>devname := ''/dev/uio1''\<rparr>)) \<and>
   (\<forall>n. strxfrm linux n = n) \<and>
   sort_key (strxfrm linux) (valid_names [''uio0'', ''..'', ''uio2'', ''.'', ''uio1'']) =
     [''uio0'', ''uio1'', ''uio2'']"
proof -
  let ?names = "[''uio0'', ''..'', ''uio2'', ''.'', ''uio1'']"
  let ?E1 = "linux_stderr_closed\<lparr>dirents := \<lambda>h d. Inl (OSError 2)\<rparr>"
  let ?E2 = "answering (Calloc 5) (0, Some ENOMEM) linux"
  have d: "''/sys/class/uio'' = sysfsname sysfs_default" by (simp add: sysfsname_default)
  have v: "valid_names ?names = [''uio0'', ''uio2'', ''uio1'']" by (simp add: valid_names_def)
  have sv: "sort [''uio0'', ''uio2'', ''uio1''] = [''uio0'', ''uio1'', ''uio2'']" by simp
  have loc: "\<forall>n. strxfrm linux n = n" by (simp add: linux_def)
  have l1: "dirents ?E1 (calls sys0) ''/sys/class/uio'' = Inl (OSError 2)"
    by simp
  have l2: "dirents linux (calls sys0) ''/sys/class/uio'' = Inr ?names"
    by (simp add: linux_def)
  have l2': "dirents ?E2 (calls sys0) ''/sys/class/uio'' = Inr ?names"
    by (simp add: linux_def answering_def)
  have p1: "fst (ret ?E2 [Scandir ''/sys/class/uio''] (Calloc 5)) = NULL"
    by (simp add: answering_def NULL_def)
  have p2: "fst (ret linux [Scandir ''/sys/class/uio''] (Calloc 5)) \<noteq> NULL"
    by (simp add: linux_def linux_ret_def NULL_def)
  have a: "\<exists>s'. uio_find_devices ?E1 sysfs_default sys0 = Inr (None, s') \<and>
      calls s' = [Scandir ''/sys/class/uio''] \<and> diag s' = [(''scandir'', OSError 2)]"
    using uio_find_devices_result [OF d, of ?E1 sys0] l1
    by (simp add: sys0_def)
  have b: "\<exists>s'. uio_find_devices ?E2 sysfs_default sys0 = Inr (None, s') \<and>
      calls s' = [Scandir ''/sys/class/uio'', Calloc 5] \<and> diag s' = [(''calloc'', ENOMEM)]"
    using uio_find_devices_result [OF d, of ?E2 sys0] l2' p1
    by (simp add: sys0_def)
  note th = uio_find_devices_result [OF d, of linux sys0, THEN conjunct2, rule_format, OF l2]
  have so: "sort_key (strxfrm linux) (valid_names ?names) = sort (valid_names ?names)"
    using th [THEN conjunct2, THEN conjunct2, rule_format, OF loc [rule_format]] .
  from th [THEN conjunct2, THEN conjunct1, rule_format] p2
  obtain ds s' where run: "uio_find_devices linux sysfs_default sys0 =
        Inr (Some (ds @ replicate (length ?names - length ds) None), s')"
    and len: "length ds = length (valid_names ?names)"
    and c: "calls s' = calls sys0 @ [Scandir ''/sys/class/uio'', Calloc (int (length ?names))] @
              map (Create_uio_info ''/sys/class/uio'') (sort_key (strxfrm linux) (valid_names ?names))"
    and nth: "\<And>k. k < length ds \<Longrightarrow> ds ! k =
         factory linux (calls sys0 @ [Scandir ''/sys/class/uio'', Calloc (int (length ?names))] @
                          map (Create_uio_info ''/sys/class/uio'')
                            (take k (sort_key (strxfrm linux) (valid_names ?names))))
           ''/sys/class/uio'' (sort_key (strxfrm linux) (valid_names ?names) ! k)"
    by (auto simp: sys0_def)
  have so': "sort_key (strxfrm linux) (valid_names ?names) = [''uio0'', ''uio1'', ''uio2'']"
    using so unfolding v sv .
  have len': "length ds = 3" using len by (simp add: v)
  have c': "calls s' = [Scandir ''/sys/class/uio'', Calloc 5,
                  Create_uio_info ''/sys/class/uio'' ''uio0'',
                  Create_uio_info ''/sys/class/uio'' ''uio1'',
                  Create_uio_info ''/sys/class/uio'' ''uio2'']"
    using c unfolding so' by (simp add: sys0_def)
  have n1: "ds ! 1 = Some (dev0\<lparr>devname := ''/dev/uio1''\<rparr>)"
    using nth [of 1] len' unfolding so' by (simp add: linux_def)
  have run': "uio_find_devices linux sysfs_default sys0 = Inr (Some (ds @ replicate (5 - length ds) None), s')"
    using run by simp
  from run' len' c' n1 have ex: "\<exists>ds s'. uio_find_devices linux sysfs_default sys0 =
        Inr (Some (ds @ replicate (5 - length ds) None), s') \<and>
      length ds = 3 \<and>
      calls s' = [Scandir ''/sys/class/uio'', Calloc 5,
                  Create_uio_info ''/sys/class/uio'' ''uio0'',
                  Create_uio_info ''/sys/class/uio'' ''uio1'',
                  Create_uio_info ''/sys/class/uio'' ''uio2''] \<and>
      ds ! 1 = Some (dev0\<lparr>devname := ''/dev/uio1''\<rparr>)"
    by blast
  from d l1 a l2 p1 b p2 ex loc so' show ?thesis by (intro conjI)
qed

end
